theory Spec2Isabelle
  imports Complex_Main
begin

section \<open>The Cobb angle calculator of lsseg/geometry.py\<close>

text \<open>
  The theory embeds the class \<open>CobbAngleCalculator\<close> of
  \<^verbatim>\<open>lsseg_slicer_extension/lsseg/geometry.py\<close>: the object is a record, each
  private method is a function from the object to an exception or the updated object.

  Numbers: a coordinate is a real number. What NumPy returns instead of raising
  (\<open>nan\<close> and the infinities) is kept in the type \<open>npfloat\<close>. The methods are
  embedded with exact arithmetic (no rounding, overflow or underflow of IEEE doubles);
  the angle computation, whose result depends on them, is embedded a second time with
  the arithmetic of doubles as a parameter, and the two embeddings agree when nothing is
  rounded.

  Collaborators: the label-shape statistics filter of SimpleITK and the solver
  \<open>scipy.optimize.least_squares\<close> are not part of the repository. The label map is
  seen through the filter (what \<open>GetOrientedBoundingBoxVertices\<close> gives for a label),
  and the solver is a parameter of the functions that call it.

  An exception result carries the kind of the exception only; the fields that a method
  assigned before it raised are not observed.
\<close>

subsection \<open>Exceptions and NumPy values\<close>

datatype exc =
  IndexError | TypeError | ValueError | AttributeError | RuntimeError | GeometryException

definition bindE :: "exc + 'a \<Rightarrow> ('a \<Rightarrow> exc + 'b) \<Rightarrow> exc + 'b" where
  "bindE m f = (case m of Inl e \<Rightarrow> Inl e | Inr v \<Rightarrow> f v)"

datatype npfloat = Fin real | PInf | NInf | NaN

text \<open>A one-dimensional float array is a list; \<open>np.array(None)\<close> is \<open>None\<close>.\<close>

type_synonym point = "real list option"

text \<open>A two-dimensional float array, as its rows.\<close>

type_synonym ndarray = "real list list"

definition size_np :: "ndarray \<Rightarrow> nat" where
  "size_np a = sum_list (map length a)"

definition reshape :: "nat \<Rightarrow> nat \<Rightarrow> real list \<Rightarrow> ndarray" where
  "reshape r c xs = map (\<lambda>i. take c (drop (i * c) xs)) [0..<r]"

text \<open>\<open>a[i, j]\<close> for the non-negative constants the code uses.\<close>

definition item2 :: "ndarray option \<Rightarrow> nat \<Rightarrow> nat \<Rightarrow> exc + real" where
  "item2 a i j =
     (case a of
        None \<Rightarrow> Inl TypeError
      | Some rows \<Rightarrow>
          if i < length rows \<and> j < length (rows ! i) then Inr (rows ! i ! j)
          else Inl IndexError)"

text \<open>\<open>p[i]\<close> on a one-dimensional array; the zero-dimensional \<open>np.array(None)\<close> has
  no axis to index.\<close>

definition item1 :: "point \<Rightarrow> nat \<Rightarrow> exc + real" where
  "item1 p i =
     (case p of
        None \<Rightarrow> Inl IndexError
      | Some xs \<Rightarrow> if i < length xs then Inr (xs ! i) else Inl IndexError)"

text \<open>Elementwise arithmetic with NumPy's broadcasting of a one-element array.\<close>

definition broadcast :: "('a \<Rightarrow> 'a \<Rightarrow> 'b) \<Rightarrow> 'a list \<Rightarrow> 'a list \<Rightarrow> exc + 'b list" where
  "broadcast f xs ys =
     (if length xs = length ys then Inr (map2 f xs ys)
      else if length xs = 1 then Inr (map (f (hd xs)) ys)
      else if length ys = 1 then Inr (map (\<lambda>x. f x (hd ys)) xs)
      else Inl ValueError)"

definition np_sub :: "point \<Rightarrow> point \<Rightarrow> exc + real list" where
  "np_sub a b =
     (case a of None \<Rightarrow> Inl TypeError
      | Some xs \<Rightarrow> (case b of None \<Rightarrow> Inl TypeError | Some ys \<Rightarrow> broadcast (-) xs ys))"

definition np_add :: "point \<Rightarrow> point \<Rightarrow> exc + real list" where
  "np_add a b =
     (case a of None \<Rightarrow> Inl TypeError
      | Some xs \<Rightarrow> (case b of None \<Rightarrow> Inl TypeError | Some ys \<Rightarrow> broadcast (+) xs ys))"

definition scale :: "real \<Rightarrow> real list \<Rightarrow> real list" where
  "scale s v = map (\<lambda>x. s * x) v"

definition np_dot :: "real list \<Rightarrow> real list \<Rightarrow> exc + real" where
  "np_dot a b =
     (if length a = length b then Inr (sum_list (map2 (*) a b)) else Inl ValueError)"

definition np_norm :: "real list \<Rightarrow> real" where
  "np_norm v = sqrt (sum_list (map (\<lambda>x. x * x) v))"

text \<open>Float division does not raise: a zero divisor gives \<open>nan\<close> or an infinity.\<close>

definition np_divide :: "real \<Rightarrow> real \<Rightarrow> npfloat" where
  "np_divide a b =
     (if b \<noteq> 0 then Fin (a / b)
      else if a = 0 then NaN else if 0 < a then PInf else NInf)"

definition np_clip :: "npfloat \<Rightarrow> real \<Rightarrow> real \<Rightarrow> npfloat" where
  "np_clip v lo hi =
     (case v of
        Fin x \<Rightarrow> Fin (min hi (max x lo))
      | PInf \<Rightarrow> Fin hi
      | NInf \<Rightarrow> Fin lo
      | NaN \<Rightarrow> NaN)"

definition np_arccos :: "npfloat \<Rightarrow> npfloat" where
  "np_arccos v =
     (case v of
        Fin x \<Rightarrow> if - 1 \<le> x \<and> x \<le> 1 then Fin (arccos x) else NaN
      | _ \<Rightarrow> NaN)"

definition np_degrees :: "npfloat \<Rightarrow> npfloat" where
  "np_degrees v = (case v of Fin x \<Rightarrow> Fin (x * 180 / pi) | w \<Rightarrow> w)"

subsection \<open>The collaborators\<close>

text \<open>
  The image gives its dimension. The label map is what the statistics filter reports
  for it: for a label, the flat tuple of \<open>GetOrientedBoundingBoxVertices\<close>, or the
  exception of the filter.
\<close>

record sitk_image =
  GetDimension :: nat

type_synonym label_map = "int \<Rightarrow> exc + real list"

text \<open>The fields \<open>x\<close>, \<open>cost\<close>, \<open>status\<close> and \<open>success\<close> of \<open>OptimizeResult\<close>.\<close>

record optimize_result =
  sols_x :: "real list"
  sols_cost :: real
  sols_status :: int
  sols_success :: bool

type_synonym residual_fn = "real list \<Rightarrow> exc + real list"

type_synonym solver = "residual_fn \<Rightarrow> real list \<Rightarrow> exc + optimize_result"

text \<open>
  \<open>scipy.optimize.least_squares(fun, x0)\<close> evaluates \<open>fun\<close> at \<open>x0\<close> before
  it iterates, so an exception of \<open>fun\<close> there leaves the call; the iteration itself is
  the parameter \<open>slv\<close>.
\<close>

definition least_squares :: "solver \<Rightarrow> residual_fn \<Rightarrow> real list \<Rightarrow> exc + optimize_result" where
  "least_squares slv f x0 = (case f x0 of Inl e \<Rightarrow> Inl e | Inr f0 \<Rightarrow> slv f x0)"

subsection \<open>The object\<close>

record calculator =
  image' :: sitk_image
  label_map :: label_map
  lv_label_index :: int
  uv_label_index :: int
  dimension :: nat
  uv_oriented_bbox_vertices :: "ndarray option"
  lv_oriented_bbox_vertices :: "ndarray option"
  uv_p1 :: point
  uv_p2 :: point
  lv_p1 :: point
  lv_p2 :: point
  intersection_point :: point
  cobb_angle :: npfloat

text \<open>\<open>__init__\<close>. The initial \<open>cobb_angle\<close> is Python's integer 0, which as a
  number is the float 0.0 that a computation can return.\<close>

definition init :: "sitk_image \<Rightarrow> label_map \<Rightarrow> int \<Rightarrow> int \<Rightarrow> calculator" where
  "init img lm uv_idx lv_idx =
     \<lparr> image' = img, label_map = lm, lv_label_index = lv_idx, uv_label_index = uv_idx,
       dimension = GetDimension img,
       uv_oriented_bbox_vertices = None, lv_oriented_bbox_vertices = None,
       uv_p1 = None, uv_p2 = None, lv_p1 = None, lv_p2 = None,
       intersection_point = None, cobb_angle = Fin 0 \<rparr>"

subsection \<open>Oriented bounding boxes\<close>

definition calc_uv_bbox_vertices :: "calculator \<Rightarrow> exc + calculator" where
  "calc_uv_bbox_vertices self =
     (case label_map self (uv_label_index self) of
        Inl e \<Rightarrow> Inl e
      | Inr bounding_box_vertices \<Rightarrow>
          let self1 = (if length bounding_box_vertices = 24
                       then self\<lparr>uv_oriented_bbox_vertices :=
                              Some (reshape 8 3 bounding_box_vertices)\<rparr>
                       else self);
              self2 = (if length bounding_box_vertices = 8
                       then self1\<lparr>uv_oriented_bbox_vertices :=
                              Some (reshape 4 2 bounding_box_vertices)\<rparr>
                       else self1)
          in Inr self2)"

definition calc_lv_bbox_vertices :: "calculator \<Rightarrow> exc + calculator" where
  "calc_lv_bbox_vertices self =
     (case label_map self (lv_label_index self) of
        Inl e \<Rightarrow> Inl e
      | Inr bounding_box_vertices \<Rightarrow>
          let self1 = (if length bounding_box_vertices = 24
                       then self\<lparr>lv_oriented_bbox_vertices :=
                              Some (reshape 8 3 bounding_box_vertices)\<rparr>
                       else self);
              self2 = (if length bounding_box_vertices = 8
                       then self1\<lparr>lv_oriented_bbox_vertices :=
                              Some (reshape 4 2 bounding_box_vertices)\<rparr>
                       else self1)
          in Inr self2)"

subsection \<open>Tangent lines\<close>

text \<open>
  \<open>__set_bbox_tan_line_points\<close> reads \<open>.size\<close> of the upper box first
  (\<open>None\<close> has no such attribute), assigns the four points in the order of the source
  and returns them; when the size is neither 24 nor 8 it falls off its end and returns
  \<open>None\<close>.
\<close>

type_synonym tan_lines = "real list \<times> real list \<times> real list \<times> real list"

definition row3 :: "ndarray option \<Rightarrow> nat \<Rightarrow> exc + real list" where
  "row3 a i =
     bindE (item2 a i 0) (\<lambda>c0. bindE (item2 a i 1) (\<lambda>c1. bindE (item2 a i 2) (\<lambda>c2.
       Inr [c0, c1, c2])))"

definition row2 :: "ndarray option \<Rightarrow> nat \<Rightarrow> exc + real list" where
  "row2 a i =
     bindE (item2 a i 0) (\<lambda>c0. bindE (item2 a i 1) (\<lambda>c1. Inr [c0, c1]))"

definition set_bbox_tan_line_points :: "calculator \<Rightarrow> exc + (tan_lines option \<times> calculator)" where
  "set_bbox_tan_line_points self =
     (case uv_oriented_bbox_vertices self of
        None \<Rightarrow> Inl AttributeError
      | Some uv \<Rightarrow>
          if size_np uv = 24 then
            bindE (row3 (uv_oriented_bbox_vertices self) 0) (\<lambda>p1.
            bindE (row3 (uv_oriented_bbox_vertices self) 1) (\<lambda>p2.
            bindE (row3 (lv_oriented_bbox_vertices self) 6) (\<lambda>q1.
            bindE (row3 (lv_oriented_bbox_vertices self) 7) (\<lambda>q2.
              Inr (Some (p1, p2, q1, q2),
                   self\<lparr>uv_p1 := Some p1, uv_p2 := Some p2,
                         lv_p1 := Some q1, lv_p2 := Some q2\<rparr>)))))
          else if size_np uv = 8 then
            bindE (row2 (uv_oriented_bbox_vertices self) 0) (\<lambda>p1.
            bindE (row2 (uv_oriented_bbox_vertices self) 1) (\<lambda>p2.
            bindE (row2 (lv_oriented_bbox_vertices self) 2) (\<lambda>q1.
            bindE (row2 (lv_oriented_bbox_vertices self) 3) (\<lambda>q2.
              Inr (Some (p1, p2, q1, q2),
                   self\<lparr>uv_p1 := Some p1, uv_p2 := Some p2,
                         lv_p1 := Some q1, lv_p2 := Some q2\<rparr>)))))
          else Inr (None, self))"

subsection \<open>The angle between the tangent lines\<close>

definition calc_angle_between_lines :: "calculator \<Rightarrow> exc + npfloat" where
  "calc_angle_between_lines self =
     (let p1 = uv_p1 self; p2 = uv_p2 self; q1 = lv_p1 self; q2 = lv_p2 self in
      bindE (np_sub p2 p1) (\<lambda>line1.
      bindE (np_sub q2 q1) (\<lambda>line2.
      bindE (np_dot line1 line2) (\<lambda>dot_product.
        let norm_line1 = np_norm line1;
            norm_line2 = np_norm line2;
            cos_theta = np_divide dot_product (norm_line1 * norm_line2);
            cos_theta' = np_clip cos_theta (- 1) 1;
            theta_rad = np_arccos cos_theta';
            theta_deg = np_degrees theta_rad
        in Inr theta_deg))))"

subsection \<open>The intersection of the tangent lines\<close>

text \<open>
  The closure \<open>errFunc\<close>: \<open>s, t = estimates\<close> needs two values, and the expression
  \<open>p1 + s * (p2 - p1) - (q1 + t * (q2 - q1))\<close> is evaluated left operand first.
\<close>

definition errFunc :: "point \<Rightarrow> point \<Rightarrow> point \<Rightarrow> point \<Rightarrow> residual_fn" where
  "errFunc p1 p2 q1 q2 estimates =
     (case estimates of
        [s, t] \<Rightarrow>
          bindE (np_sub p2 p1) (\<lambda>d1.
          bindE (np_add p1 (Some (scale s d1))) (\<lambda>a.
          bindE (np_sub q2 q1) (\<lambda>d2.
          bindE (np_add q1 (Some (scale t d2))) (\<lambda>b.
            np_sub (Some a) (Some b)))))
      | _ \<Rightarrow> Inl ValueError)"

text \<open>\<open>p1[i] + s * (p2[i] - p1[i])\<close>, reading \<open>p1[i]\<close>, then \<open>p2[i]\<close>.\<close>

definition coord_at :: "point \<Rightarrow> point \<Rightarrow> real \<Rightarrow> nat \<Rightarrow> exc + real" where
  "coord_at p1 p2 s i =
     bindE (item1 p1 i) (\<lambda>a. bindE (item1 p2 i) (\<lambda>b. Inr (a + s * (b - a))))"

definition calc_intersection :: "solver \<Rightarrow> calculator \<Rightarrow> exc + calculator" where
  "calc_intersection slv self =
     (let p1 = uv_p1 self; p2 = uv_p2 self; q1 = lv_p1 self; q2 = lv_p2 self;
          estimates = [1, 1] in
      bindE (least_squares slv (errFunc p1 p2 q1 q2) estimates) (\<lambda>sols.
        case sols_x sols of
          [s, t] \<Rightarrow>
            bindE (coord_at p1 p2 s 0) (\<lambda>x1.
            bindE (coord_at q1 q2 t 0) (\<lambda>x2.
            bindE (coord_at p1 p2 s 1) (\<lambda>y1.
            bindE (coord_at q1 q2 t 1) (\<lambda>y2.
            bindE (coord_at p1 p2 s 2) (\<lambda>z1.
            bindE (coord_at q1 q2 t 2) (\<lambda>z2.
              Inr (self\<lparr>intersection_point :=
                     Some [(x1 + x2) / 2, (y1 + y2) / 2, (z1 + z2) / 2]\<rparr>)))))))
        | _ \<Rightarrow> Inl ValueError))"

subsection \<open>The public methods\<close>

definition execute :: "solver \<Rightarrow> calculator \<Rightarrow> exc + calculator" where
  "execute slv self =
     bindE (calc_uv_bbox_vertices self) (\<lambda>self1.
     bindE (calc_lv_bbox_vertices self1) (\<lambda>self2.
     bindE (set_bbox_tan_line_points self2) (\<lambda>(r, self3).
     bindE (calc_angle_between_lines self3) (\<lambda>angle.
       calc_intersection slv (self3\<lparr>cobb_angle := angle\<rparr>)))))"

definition get_cobb_angle :: "calculator \<Rightarrow> npfloat" where
  "get_cobb_angle self = cobb_angle self"

subsection \<open>Shapes and the formulas of the specification\<close>

text \<open>An oriented bounding box in three dimensions has 8 vertices of 3 coordinates,
  one in two dimensions has 4 vertices of 2 coordinates.\<close>

definition box3d :: "ndarray \<Rightarrow> bool" where
  "box3d a = (length a = 8 \<and> list_all (\<lambda>v. length v = 3) a)"

definition box2d :: "ndarray \<Rightarrow> bool" where
  "box2d a = (length a = 4 \<and> list_all (\<lambda>v. length v = 2) a)"

text \<open>The direction vector \<open>d = p2 - p1\<close> of a tangent line.\<close>

definition direction :: "real list \<Rightarrow> real list \<Rightarrow> real list" where
  "direction p1 p2 = map2 (-) p2 p1"

definition dot :: "real list \<Rightarrow> real list \<Rightarrow> real" where
  "dot u v = sum_list (map2 (*) u v)"

text \<open>\<open>degrees(acos(clip((d1 . d2) / (|d1| |d2|), -1, 1)))\<close>.\<close>

definition clip :: "real \<Rightarrow> real \<Rightarrow> real \<Rightarrow> real" where
  "clip c lo hi = (if c < lo then lo else if hi < c then hi else c)"

definition degrees :: "real \<Rightarrow> real" where
  "degrees r = r * 180 / pi"

definition spec_angle :: "real list \<Rightarrow> real list \<Rightarrow> real" where
  "spec_angle d1 d2 =
     degrees (arccos (clip (dot d1 d2 / (sqrt (dot d1 d1) * sqrt (dot d2 d2))) (- 1) 1))"

text \<open>The point \<open>p1 + s (p2 - p1)\<close> of a line, the residual
  \<open>r(s, t) = (p1 + s (p2 - p1)) - (q1 + t (q2 - q1))\<close>, the sum of its squares and the
  componentwise midpoint of two points.\<close>

definition line_point :: "real list \<Rightarrow> real list \<Rightarrow> real \<Rightarrow> real list" where
  "line_point p1 p2 s = map2 (+) p1 (map (\<lambda>d. s * d) (direction p1 p2))"

definition residual :: "real list \<Rightarrow> real list \<Rightarrow> real list \<Rightarrow> real list \<Rightarrow> real \<Rightarrow> real \<Rightarrow> real list" where
  "residual p1 p2 q1 q2 s t = map2 (-) (line_point p1 p2 s) (line_point q1 q2 t)"

definition sum_squares :: "real list \<Rightarrow> real" where
  "sum_squares r = sum_list (map (\<lambda>c. c * c) r)"

definition midpoint :: "real list \<Rightarrow> real list \<Rightarrow> real list" where
  "midpoint a b = map2 (\<lambda>u v. (u + v) / 2) a b"

text \<open>
  The contract of the solver, a collaborator outside the repository: the parameters it
  answers with make the sum of the squares of the function it was given as small as any
  other parameters do.
\<close>

definition minimises :: "residual_fn \<Rightarrow> real list \<Rightarrow> bool" where
  "minimises f est =
     (\<exists>r. f est = Inr r \<and>
        (\<forall>est' r'. length est' = length est \<and> f est' = Inr r' \<longrightarrow>
           sum_squares r \<le> sum_squares r'))"

text \<open>The object with its two tangent lines exchanged.\<close>

definition swap_lines :: "calculator \<Rightarrow> calculator" where
  "swap_lines self =
     self\<lparr>uv_p1 := lv_p1 self, uv_p2 := lv_p2 self, lv_p1 := uv_p1 self, lv_p2 := uv_p2 self\<rparr>"

subsection \<open>The angle in floating-point arithmetic\<close>

text \<open>
  NumPy computes on IEEE 754 doubles. The arithmetic is a parameter of a second
  embedding of \<open>__calc_angle_between_lines\<close>: the rounding of an exact result to a double
  (or to an infinity, on overflow), the inverse cosine of the C library on a cosine from
  -1 to 1, and NumPy's conversion of a finite angle to degrees. Addition, subtraction,
  multiplication, division and the square root are the exact operation followed by the
  rounding, as the standard prescribes, with its rules for the infinities and
  \<open>nan\<close>. The two zeros of the standard are one value here: they differ only as a
  divisor, and the divisor of the program is a product of two square roots of sums of
  squares, never the negative zero. The coordinates of the points are doubles.
\<close>

record arith =
  ar_round :: "real \<Rightarrow> npfloat"
  ar_arccos :: "real \<Rightarrow> npfloat"
  ar_degrees :: "real \<Rightarrow> npfloat"

definition inf_of :: "bool \<Rightarrow> npfloat" where
  "inf_of positive = (if positive then PInf else NInf)"

fun fl_neg :: "npfloat \<Rightarrow> npfloat" where
  "fl_neg (Fin a) = Fin (- a)"
| "fl_neg PInf = NInf"
| "fl_neg NInf = PInf"
| "fl_neg NaN = NaN"

fun fl_add :: "arith \<Rightarrow> npfloat \<Rightarrow> npfloat \<Rightarrow> npfloat" where
  "fl_add ar (Fin a) (Fin b) = ar_round ar (a + b)"
| "fl_add ar NaN _ = NaN"
| "fl_add ar _ NaN = NaN"
| "fl_add ar PInf NInf = NaN"
| "fl_add ar NInf PInf = NaN"
| "fl_add ar PInf _ = PInf"
| "fl_add ar _ PInf = PInf"
| "fl_add ar NInf _ = NInf"
| "fl_add ar _ NInf = NInf"

definition fl_sub :: "arith \<Rightarrow> npfloat \<Rightarrow> npfloat \<Rightarrow> npfloat" where
  "fl_sub ar a b = fl_add ar a (fl_neg b)"

fun fl_mul :: "arith \<Rightarrow> npfloat \<Rightarrow> npfloat \<Rightarrow> npfloat" where
  "fl_mul ar (Fin a) (Fin b) = ar_round ar (a * b)"
| "fl_mul ar NaN _ = NaN"
| "fl_mul ar _ NaN = NaN"
| "fl_mul ar (Fin a) PInf = (if a = 0 then NaN else inf_of (0 < a))"
| "fl_mul ar (Fin a) NInf = (if a = 0 then NaN else inf_of (a < 0))"
| "fl_mul ar PInf (Fin b) = (if b = 0 then NaN else inf_of (0 < b))"
| "fl_mul ar NInf (Fin b) = (if b = 0 then NaN else inf_of (b < 0))"
| "fl_mul ar PInf PInf = PInf"
| "fl_mul ar NInf NInf = PInf"
| "fl_mul ar PInf NInf = NInf"
| "fl_mul ar NInf PInf = NInf"

text \<open>A zero divisor is the positive zero.\<close>

fun fl_div :: "arith \<Rightarrow> npfloat \<Rightarrow> npfloat \<Rightarrow> npfloat" where
  "fl_div ar (Fin a) (Fin b) =
     (if b \<noteq> 0 then ar_round ar (a / b)
      else if a = 0 then NaN else inf_of (0 < a))"
| "fl_div ar NaN _ = NaN"
| "fl_div ar _ NaN = NaN"
| "fl_div ar (Fin a) PInf = Fin 0"
| "fl_div ar (Fin a) NInf = Fin 0"
| "fl_div ar PInf (Fin b) = inf_of (0 \<le> b)"
| "fl_div ar NInf (Fin b) = inf_of (b < 0)"
| "fl_div ar PInf PInf = NaN"
| "fl_div ar PInf NInf = NaN"
| "fl_div ar NInf PInf = NaN"
| "fl_div ar NInf NInf = NaN"

fun fl_sqrt :: "arith \<Rightarrow> npfloat \<Rightarrow> npfloat" where
  "fl_sqrt ar (Fin a) = (if a < 0 then NaN else ar_round ar (sqrt a))"
| "fl_sqrt ar PInf = PInf"
| "fl_sqrt ar NInf = NaN"
| "fl_sqrt ar NaN = NaN"

text \<open>The difference of two arrays of doubles, with the broadcasting of \<open>np_sub\<close>.\<close>

definition np_sub_fp :: "arith \<Rightarrow> point \<Rightarrow> point \<Rightarrow> exc + npfloat list" where
  "np_sub_fp ar a b =
     (case a of None \<Rightarrow> Inl TypeError
      | Some xs \<Rightarrow>
          (case b of None \<Rightarrow> Inl TypeError
           | Some ys \<Rightarrow> broadcast (\<lambda>c d. fl_sub ar (Fin c) (Fin d)) xs ys))"

text \<open>The sum of the products, accumulated from the first index on.\<close>

definition fl_sum :: "arith \<Rightarrow> npfloat list \<Rightarrow> npfloat" where
  "fl_sum ar vs = foldl (fl_add ar) (Fin 0) vs"

definition np_dot_fp :: "arith \<Rightarrow> npfloat list \<Rightarrow> npfloat list \<Rightarrow> exc + npfloat" where
  "np_dot_fp ar a b =
     (if length a = length b then Inr (fl_sum ar (map2 (fl_mul ar) a b)) else Inl ValueError)"

definition np_norm_fp :: "arith \<Rightarrow> npfloat list \<Rightarrow> npfloat" where
  "np_norm_fp ar v = fl_sqrt ar (fl_sum ar (map (\<lambda>c. fl_mul ar c c) v))"

text \<open>Outside the interval from -1 to 1 the inverse cosine is \<open>nan\<close>; the conversion
  to degrees keeps an infinity and \<open>nan\<close>.\<close>

definition np_arccos_fp :: "arith \<Rightarrow> npfloat \<Rightarrow> npfloat" where
  "np_arccos_fp ar v =
     (case v of
        Fin c \<Rightarrow> if - 1 \<le> c \<and> c \<le> 1 then ar_arccos ar c else NaN
      | _ \<Rightarrow> NaN)"

definition np_degrees_fp :: "arith \<Rightarrow> npfloat \<Rightarrow> npfloat" where
  "np_degrees_fp ar v = (case v of Fin r \<Rightarrow> ar_degrees ar r | w \<Rightarrow> w)"

definition calc_angle_between_lines_fp :: "arith \<Rightarrow> calculator \<Rightarrow> exc + npfloat" where
  "calc_angle_between_lines_fp ar self =
     (let p1 = uv_p1 self; p2 = uv_p2 self; q1 = lv_p1 self; q2 = lv_p2 self in
      bindE (np_sub_fp ar p2 p1) (\<lambda>line1.
      bindE (np_sub_fp ar q2 q1) (\<lambda>line2.
      bindE (np_dot_fp ar line1 line2) (\<lambda>dot_product.
        let norm_line1 = np_norm_fp ar line1;
            norm_line2 = np_norm_fp ar line2;
            cos_theta = fl_div ar dot_product (fl_mul ar norm_line1 norm_line2);
            cos_theta' = np_clip cos_theta (- 1) 1;
            theta_rad = np_arccos_fp ar cos_theta';
            theta_deg = np_degrees_fp ar theta_rad
        in Inr theta_deg))))"

text \<open>The arithmetic without rounding: with it the embedding is
  \<open>calc_angle_between_lines\<close>.\<close>

definition exact :: arith where
  "exact = \<lparr>ar_round = Fin, ar_arccos = (\<lambda>c. Fin (arccos c)),
            ar_degrees = (\<lambda>r. Fin (r * 180 / pi))\<rparr>"

text \<open>
  The rounding of binary64, to the nearest double with ties to the even significand:
  a double is an integer of magnitude up to \<open>2^53\<close> times a power of two not below
  \<open>2^-1074\<close>, and a result of magnitude \<open>2^1024\<close> is an infinity.
\<close>

definition round_half_even :: "real \<Rightarrow> int" where
  "round_half_even r =
     (let f = \<lfloor>r\<rfloor> in
      if r - of_int f < 1 / 2 then f
      else if 1 / 2 < r - of_int f then f + 1
      else if even f then f else f + 1)"

definition round64 :: "real \<Rightarrow> npfloat" where
  "round64 a =
     (if a = 0 then Fin 0
      else
        let e = max (\<lfloor>log 2 \<bar>a\<bar>\<rfloor> - 52) (- 1074);
            y = of_int (round_half_even (a / 2 powr of_int e)) * 2 powr of_int e
        in if 2 ^ 1024 \<le> \<bar>y\<bar> then inf_of (0 < a) else Fin y)"

text \<open>The arithmetic of doubles. Its inverse cosine and its conversion to degrees are
  the correctly rounded ones; those of the libraries may differ from them in the last
  bit.\<close>

definition binary64 :: arith where
  "binary64 = \<lparr>ar_round = round64, ar_arccos = (\<lambda>c. round64 (arccos c)),
               ar_degrees = (\<lambda>r. round64 (r * 180 / pi))\<rparr>"

text \<open>The quotient \<open>(d1 . d2) / (|d1| |d2|)\<close> as the doubles give it, for points of
  one dimension.\<close>

definition direction_fp :: "arith \<Rightarrow> real list \<Rightarrow> real list \<Rightarrow> npfloat list" where
  "direction_fp ar p1 p2 = map2 (\<lambda>c d. fl_sub ar (Fin c) (Fin d)) p2 p1"

definition cosine_fp :: "arith \<Rightarrow> npfloat list \<Rightarrow> npfloat list \<Rightarrow> npfloat" where
  "cosine_fp ar d1 d2 =
     fl_div ar (fl_sum ar (map2 (fl_mul ar) d1 d2))
       (fl_mul ar (np_norm_fp ar d1) (np_norm_fp ar d2))"

text \<open>What the program relies on from the two library functions: a cosine from -1 to 1
  becomes an angle from 0 to 180 degrees.\<close>

definition angles_in_range :: "arith \<Rightarrow> bool" where
  "angles_in_range ar =
     (\<forall>c. - 1 \<le> c \<and> c \<le> 1 \<longrightarrow>
        (\<exists>v. np_degrees_fp ar (ar_arccos ar c) = Fin v \<and> 0 \<le> v \<and> v \<le> 180))"

subsection \<open>Concrete inputs\<close>

text \<open>An axis-aligned unit cube standing on height \<open>z\<close> and a unit square standing on
  height \<open>y\<close>, as the flat coordinate tuples of the statistics filter.\<close>

definition flat_box3 :: "real \<Rightarrow> real list" where
  "flat_box3 z = [0, 0, z,  1, 0, z,  0, 1, z,  1, 1, z,
                  0, 0, z + 1,  1, 0, z + 1,  0, 1, z + 1,  1, 1, z + 1]"

definition flat_box2 :: "real \<Rightarrow> real list" where
  "flat_box2 y = [0, y,  1, y,  0, y + 1,  1, y + 1]"

definition cube :: "real \<Rightarrow> ndarray" where
  "cube z = [[0, 0, z], [1, 0, z], [0, 1, z], [1, 1, z],
             [0, 0, z + 1], [1, 0, z + 1], [0, 1, z + 1], [1, 1, z + 1]]"

definition square :: "real \<Rightarrow> ndarray" where
  "square y = [[0, y], [1, y], [0, y + 1], [1, y + 1]]"

text \<open>Label maps: label 1 is the upper vertebra and label 2 the lower one; the filter
  fails on any other label.\<close>

definition labels3 :: label_map where
  "labels3 l = (if l = 1 then Inr (flat_box3 10) else if l = 2 then Inr (flat_box3 0)
                else Inl RuntimeError)"

definition labels2 :: label_map where
  "labels2 l = (if l = 1 then Inr (flat_box2 10) else if l = 2 then Inr (flat_box2 0)
                else Inl RuntimeError)"

text \<open>A label map on which the filter reports one point of three coordinates.\<close>

definition labels_short :: label_map where
  "labels_short l = Inr [1, 2, 3]"

text \<open>A new object for the labels 1 and 2. The dimension of the image is stored by
  the constructor and read by no method of the model.\<close>

definition fresh :: "label_map \<Rightarrow> calculator" where
  "fresh lm = init \<lparr>GetDimension = 3\<rparr> lm 1 2"

text \<open>An object with the given boxes stored.\<close>

definition with_boxes :: "ndarray option \<Rightarrow> ndarray option \<Rightarrow> calculator" where
  "with_boxes uv lv =
     (fresh labels3)\<lparr>uv_oriented_bbox_vertices := uv, lv_oriented_bbox_vertices := lv\<rparr>"

text \<open>An object with the given tangent lines stored.\<close>

definition with_lines :: "point \<Rightarrow> point \<Rightarrow> point \<Rightarrow> point \<Rightarrow> calculator" where
  "with_lines p1 p2 q1 q2 =
     (fresh labels3)\<lparr>uv_p1 := p1, uv_p2 := p2, lv_p1 := q1, lv_p2 := q2\<rparr>"

text \<open>The object after the selection of the tangent lines of the two cubes of
  \<open>labels3\<close>.\<close>

definition cubes_lines :: calculator where
  "cubes_lines =
     (fresh labels3)\<lparr>uv_oriented_bbox_vertices := Some (cube 10),
                      lv_oriented_bbox_vertices := Some (cube 0),
                      uv_p1 := Some [0, 0, 10], uv_p2 := Some [1, 0, 10],
                      lv_p1 := Some [0, 1, 1], lv_p2 := Some [1, 1, 1]\<rparr>"

text \<open>A double so small that its square is below the smallest double, and two
  perpendicular tangent lines of that length.\<close>

definition tiny :: real where
  "tiny = 2 powr (- 600)"

definition tiny_lines :: calculator where
  "tiny_lines = with_lines (Some [0, 0, 0]) (Some [tiny, 0, 0]) (Some [0, 0, 0]) (Some [0, tiny, 0])"

text \<open>Solvers: one that answers with the given parameters and reports the given
  outcome whatever it is asked.\<close>

definition answering :: "real list \<Rightarrow> real \<Rightarrow> int \<Rightarrow> bool \<Rightarrow> solver" where
  "answering est c st ok f x0 =
     Inr \<lparr>sols_x = est, sols_cost = c, sols_status = st, sols_success = ok\<rparr>"

section \<open>Properties\<close>

subsection \<open>Tangent-line selection\<close>

lemma size_np_rows: "list_all (\<lambda>v. length v = c) a \<Longrightarrow> size_np a = length a * c"
  by (induction a) (simp_all add: size_np_def)

lemma list3_eq: "length v = 3 \<Longrightarrow> [v ! 0, v ! 1, v ! 2] = v"
  by (cases v; simp; cases "tl v"; simp; cases "tl (tl v)"; simp)

lemma list2_eq: "length v = 2 \<Longrightarrow> [v ! 0, v ! 1] = v"
  by (cases v; simp; cases "tl v"; simp)

lemma row3_vertex:
  assumes "i < length a" "length (a ! i) = 3"
  shows "row3 (Some a) i = Inr (a ! i)"
proof -
  have "row3 (Some a) i = Inr [a ! i ! 0, a ! i ! 1, a ! i ! 2]"
    using assms by (simp add: row3_def item2_def bindE_def)
  then show ?thesis using list3_eq [OF assms(2)] by simp
qed

lemma row2_vertex:
  assumes "i < length a" "length (a ! i) = 2"
  shows "row2 (Some a) i = Inr (a ! i)"
proof -
  have "row2 (Some a) i = Inr [a ! i ! 0, a ! i ! 1]"
    using assms by (simp add: row2_def item2_def bindE_def)
  then show ?thesis using list2_eq [OF assms(2)] by simp
qed

lemma box3d_row: "box3d a \<Longrightarrow> i < 8 \<Longrightarrow> row3 (Some a) i = Inr (a ! i)"
  by (simp add: box3d_def row3_vertex list_all_length)

lemma box2d_row: "box2d a \<Longrightarrow> i < 4 \<Longrightarrow> row2 (Some a) i = Inr (a ! i)"
  by (simp add: box2d_def row2_vertex list_all_length)

lemma box3d_size: "box3d a \<Longrightarrow> size_np a = 24"
  using size_np_rows [of 3 a] by (simp add: box3d_def)

lemma box2d_size: "box2d a \<Longrightarrow> size_np a = 8"
  using size_np_rows [of 2 a] by (simp add: box2d_def)

text \<open>
  Claim C1. For two stored boxes of 8 vertices with 3 coordinates each, the selection
  returns vertices 0 and 1 of the upper box and vertices 6 and 7 of the lower box; for
  two boxes of 4 vertices with 2 coordinates each, it returns vertices 0 and 1 of the
  upper box and vertices 2 and 3 of the lower box. The four points are the stored
  vertices themselves, a function of the two boxes alone, and they are also assigned to
  the fields \<open>uv_p1\<close>, \<open>uv_p2\<close>, \<open>lv_p1\<close>, \<open>lv_p2\<close>.
\<close>

theorem tangent_line_selection:
  assumes "uv_oriented_bbox_vertices self = Some uv"
      and "lv_oriented_bbox_vertices self = Some lv"
  shows "(box3d uv \<and> box3d lv \<longrightarrow>
            set_bbox_tan_line_points self =
              Inr (Some (uv ! 0, uv ! 1, lv ! 6, lv ! 7),
                   self\<lparr>uv_p1 := Some (uv ! 0), uv_p2 := Some (uv ! 1),
                         lv_p1 := Some (lv ! 6), lv_p2 := Some (lv ! 7)\<rparr>)) \<and>
         (box2d uv \<and> box2d lv \<longrightarrow>
            set_bbox_tan_line_points self =
              Inr (Some (uv ! 0, uv ! 1, lv ! 2, lv ! 3),
                   self\<lparr>uv_p1 := Some (uv ! 0), uv_p2 := Some (uv ! 1),
                         lv_p1 := Some (lv ! 2), lv_p2 := Some (lv ! 3)\<rparr>))"
proof (intro conjI impI)
  assume b: "box3d uv \<and> box3d lv"
  then show "set_bbox_tan_line_points self =
              Inr (Some (uv ! 0, uv ! 1, lv ! 6, lv ! 7),
                   self\<lparr>uv_p1 := Some (uv ! 0), uv_p2 := Some (uv ! 1),
                         lv_p1 := Some (lv ! 6), lv_p2 := Some (lv ! 7)\<rparr>)"
    using assms by (simp add: set_bbox_tan_line_points_def box3d_size box3d_row bindE_def)
next
  assume b: "box2d uv \<and> box2d lv"
  then show "set_bbox_tan_line_points self =
              Inr (Some (uv ! 0, uv ! 1, lv ! 2, lv ! 3),
                   self\<lparr>uv_p1 := Some (uv ! 0), uv_p2 := Some (uv ! 1),
                         lv_p1 := Some (lv ! 2), lv_p2 := Some (lv ! 3)\<rparr>)"
    using assms by (simp add: set_bbox_tan_line_points_def box2d_size box2d_row bindE_def)
qed

lemma box3d_cube: "box3d (cube z)"
  by (simp add: box3d_def cube_def)

lemma box2d_square: "box2d (square y)"
  by (simp add: box2d_def square_def)

text \<open>The selection on two cubes and on two squares.\<close>

theorem tangent_line_selection_witness:
  "box3d (cube 10) \<and> box3d (cube 0) \<and>
   set_bbox_tan_line_points (with_boxes (Some (cube 10)) (Some (cube 0))) =
     Inr (Some ([0, 0, 10], [1, 0, 10], [0, 1, 1], [1, 1, 1]),
          (with_boxes (Some (cube 10)) (Some (cube 0)))
            \<lparr>uv_p1 := Some [0, 0, 10], uv_p2 := Some [1, 0, 10],
             lv_p1 := Some [0, 1, 1], lv_p2 := Some [1, 1, 1]\<rparr>) \<and>
   box2d (square 10) \<and> box2d (square 0) \<and>
   set_bbox_tan_line_points (with_boxes (Some (square 10)) (Some (square 0))) =
     Inr (Some ([0, 10], [1, 10], [0, 1], [1, 1]),
          (with_boxes (Some (square 10)) (Some (square 0)))
            \<lparr>uv_p1 := Some [0, 10], uv_p2 := Some [1, 10],
             lv_p1 := Some [0, 1], lv_p2 := Some [1, 1]\<rparr>)"
proof -
  have uv3: "uv_oriented_bbox_vertices (with_boxes (Some (cube 10)) (Some (cube 0))) = Some (cube 10)"
    and lv3: "lv_oriented_bbox_vertices (with_boxes (Some (cube 10)) (Some (cube 0))) = Some (cube 0)"
    and uv2: "uv_oriented_bbox_vertices (with_boxes (Some (square 10)) (Some (square 0))) = Some (square 10)"
    and lv2: "lv_oriented_bbox_vertices (with_boxes (Some (square 10)) (Some (square 0))) = Some (square 0)"
    by (simp_all add: with_boxes_def)
  have c: "cube 10 ! 0 = [0, 0, 10]" "cube 10 ! Suc 0 = [1, 0, 10]"
          "cube 0 ! 6 = [0, 1, 1]" "cube 0 ! 7 = [1, 1, 1]"
          "square 10 ! 0 = [0, 10]" "square 10 ! Suc 0 = [1, 10]"
          "square 0 ! 2 = [0, 1]" "square 0 ! 3 = [1, 1]"
    by (simp_all add: cube_def square_def)
  show ?thesis
    using tangent_line_selection [OF uv3 lv3] tangent_line_selection [OF uv2 lv2]
    by (simp add: box3d_cube box2d_square c)
qed

subsection \<open>Oriented-box extraction\<close>

lemma reshape_length: "length (reshape r c xs) = r"
  by (simp add: reshape_def)

lemma reshape_rows:
  assumes "length xs = r * c"
  shows "list_all (\<lambda>v. length v = c) (reshape r c xs)"
proof -
  have "length (take c (drop (i * c) xs)) = c" if "i < r" for i
  proof -
    from that have "Suc i * c \<le> r * c" by (intro mult_le_mono1) simp
    then show ?thesis using assms by simp
  qed
  then show ?thesis by (simp add: reshape_def list_all_iff)
qed

lemma reshape_concat: "r * c \<le> length xs \<Longrightarrow> concat (reshape r c xs) = take (r * c) xs"
proof (induction r)
  case 0
  then show ?case by (simp add: reshape_def)
next
  case (Suc r)
  then have ih: "concat (reshape r c xs) = take (r * c) xs" by simp
  have "concat (reshape (Suc r) c xs) = concat (reshape r c xs) @ take c (drop (r * c) xs)"
    by (simp add: reshape_def)
  also have "\<dots> = take (r * c + c) xs" by (simp only: ih take_add)
  finally show ?case by (simp add: add.commute)
qed

lemma reshape_box3d: "length xs = 24 \<Longrightarrow> box3d (reshape 8 3 xs) \<and> concat (reshape 8 3 xs) = xs"
  using reshape_rows [of xs 8 3] reshape_concat [of 8 3 xs]
  by (simp add: box3d_def reshape_length)

lemma reshape_box2d: "length xs = 8 \<Longrightarrow> box2d (reshape 4 2 xs) \<and> concat (reshape 4 2 xs) = xs"
  using reshape_rows [of xs 4 2] reshape_concat [of 4 2 xs]
  by (simp add: box2d_def reshape_length)

lemma reshape_flat_box3: "reshape 8 3 (flat_box3 z) = cube z"
  by (simp add: reshape_def flat_box3_def cube_def upt_conv_Cons)

lemma reshape_flat_box2: "reshape 4 2 (flat_box2 y) = square y"
  by (simp add: reshape_def flat_box2_def square_def upt_conv_Cons)


text \<open>
  Claim C5, as the code has it. When the statistics filter reports 24 coordinates the
  extraction stores 8 vertices of 3 coordinates, when it reports 8 coordinates it stores
  4 vertices of 2 coordinates, in both cases the coordinates in the order of the filter.
  For any other count the extraction raises nothing and returns the object as it was,
  the stored box untouched.
\<close>

theorem oriented_box_extraction:
  "(label_map self (uv_label_index self) = Inr vs \<longrightarrow>
      calc_uv_bbox_vertices self =
        Inr (if length vs = 24 then self\<lparr>uv_oriented_bbox_vertices := Some (reshape 8 3 vs)\<rparr>
             else if length vs = 8 then self\<lparr>uv_oriented_bbox_vertices := Some (reshape 4 2 vs)\<rparr>
             else self)) \<and>
   (label_map self (lv_label_index self) = Inr vs \<longrightarrow>
      calc_lv_bbox_vertices self =
        Inr (if length vs = 24 then self\<lparr>lv_oriented_bbox_vertices := Some (reshape 8 3 vs)\<rparr>
             else if length vs = 8 then self\<lparr>lv_oriented_bbox_vertices := Some (reshape 4 2 vs)\<rparr>
             else self)) \<and>
   (length vs = 24 \<longrightarrow> box3d (reshape 8 3 vs) \<and> concat (reshape 8 3 vs) = vs) \<and>
   (length vs = 8 \<longrightarrow> box2d (reshape 4 2 vs) \<and> concat (reshape 4 2 vs) = vs)"
  using reshape_box3d [of vs] reshape_box2d [of vs]
  by (simp add: calc_uv_bbox_vertices_def calc_lv_bbox_vertices_def)

text \<open>The extraction of two cubes, of two squares and of a tuple of three coordinates.\<close>

theorem oriented_box_extraction_witness:
  "calc_uv_bbox_vertices (fresh labels3) =
     Inr ((fresh labels3)\<lparr>uv_oriented_bbox_vertices := Some (cube 10)\<rparr>) \<and>
   calc_lv_bbox_vertices (fresh labels3) =
     Inr ((fresh labels3)\<lparr>lv_oriented_bbox_vertices := Some (cube 0)\<rparr>) \<and>
   box3d (cube 0) \<and>
   calc_uv_bbox_vertices (fresh labels2) =
     Inr ((fresh labels2)\<lparr>uv_oriented_bbox_vertices := Some (square 10)\<rparr>) \<and>
   calc_lv_bbox_vertices (fresh labels2) =
     Inr ((fresh labels2)\<lparr>lv_oriented_bbox_vertices := Some (square 0)\<rparr>) \<and>
   box2d (square 0) \<and>
   calc_uv_bbox_vertices (fresh labels_short) = Inr (fresh labels_short) \<and>
   calc_lv_bbox_vertices (fresh labels_short) = Inr (fresh labels_short)"
proof -
  have l3: "label_map (fresh labels3) (uv_label_index (fresh labels3)) = Inr (flat_box3 10)"
           "label_map (fresh labels3) (lv_label_index (fresh labels3)) = Inr (flat_box3 0)"
    and l2: "label_map (fresh labels2) (uv_label_index (fresh labels2)) = Inr (flat_box2 10)"
           "label_map (fresh labels2) (lv_label_index (fresh labels2)) = Inr (flat_box2 0)"
    and ls: "label_map (fresh labels_short) (uv_label_index (fresh labels_short)) = Inr [1, 2, 3]"
           "label_map (fresh labels_short) (lv_label_index (fresh labels_short)) = Inr [1, 2, 3]"
    by (simp_all add: fresh_def init_def labels3_def labels2_def labels_short_def)
  have len: "length (flat_box3 z) = 24" "length (flat_box2 z) = 8" for z
    by (simp_all add: flat_box3_def flat_box2_def)
  show ?thesis
    using oriented_box_extraction [of "fresh labels3" "flat_box3 10"]
          oriented_box_extraction [of "fresh labels3" "flat_box3 0"]
          oriented_box_extraction [of "fresh labels2" "flat_box2 10"]
          oriented_box_extraction [of "fresh labels2" "flat_box2 0"]
          oriented_box_extraction [of "fresh labels_short" "[1, 2, 3]"]
    by (simp add: l3 l2 ls len reshape_flat_box3 reshape_flat_box2)
qed

text \<open>
  On a new object whose filter reports three coordinates, both extractions return
  normally and the boxes stay unset: no exception is raised for the malformed count.
\<close>

theorem oriented_box_extraction_counterexample:
  "calc_uv_bbox_vertices (fresh labels_short) = Inr (fresh labels_short) \<and>
   uv_oriented_bbox_vertices (fresh labels_short) = None \<and>
   calc_lv_bbox_vertices (fresh labels_short) = Inr (fresh labels_short) \<and>
   lv_oriented_bbox_vertices (fresh labels_short) = None"
  by (simp add: calc_uv_bbox_vertices_def calc_lv_bbox_vertices_def fresh_def init_def
        labels_short_def)

subsection \<open>Tangent-line selection on boxes that do not fit\<close>

lemma take2_of3: "length v = 3 \<Longrightarrow> [v ! 0, v ! 1] = take 2 v"
  by (cases v; simp; cases "tl v"; simp; cases "tl (tl v)"; simp)

lemma row2_of_vertex3:
  assumes "i < length a" "length (a ! i) = 3"
  shows "row2 (Some a) i = Inr (take 2 (a ! i))"
proof -
  have "row2 (Some a) i = Inr [a ! i ! 0, a ! i ! 1]"
    using assms by (simp add: row2_def item2_def bindE_def)
  then show ?thesis using take2_of3 [OF assms(2)] by simp
qed

lemma row3_of_short:
  assumes "length a \<le> i"
  shows "row3 (Some a) i = Inl IndexError"
  using assms by (simp add: row3_def item2_def bindE_def)

lemma item2_raises: "item2 a i j = Inl e \<Longrightarrow> e = TypeError \<or> e = IndexError"
  by (auto simp: item2_def split: option.splits if_splits)

lemma row3_raises: "row3 a i = Inl e \<Longrightarrow> e = TypeError \<or> e = IndexError"
  by (auto simp: row3_def bindE_def split: sum.splits dest: item2_raises)

lemma row2_raises: "row2 a i = Inl e \<Longrightarrow> e = TypeError \<or> e = IndexError"
  by (auto simp: row2_def bindE_def split: sum.splits dest: item2_raises)

lemma row3_unset: "row3 None i = Inl TypeError"
  by (simp add: row3_def item2_def bindE_def)

lemma row2_unset: "row2 None i = Inl TypeError"
  by (simp add: row2_def item2_def bindE_def)

lemma set_bbox_raises:
  "set_bbox_tan_line_points self = Inl e \<Longrightarrow>
     e = AttributeError \<or> e = TypeError \<or> e = IndexError"
  by (auto simp: set_bbox_tan_line_points_def bindE_def
           split: option.splits sum.splits if_splits dest: row3_raises row2_raises)

text \<open>
  Claim C8, as the code has it. The selection has no check of its own and never raises
  \<open>GeometryException\<close>. With the upper box unset it fails on the attribute
  \<open>size\<close> of \<open>None\<close>; with a 3-D upper box and a 2-D lower box it fails with an
  \<open>IndexError\<close> on row 6 of the lower box; with a 2-D upper box and a 3-D lower box it
  raises nothing and returns the first two coordinates of vertices 2 and 3 of the lower
  box; with the lower box unset it fails with a \<open>TypeError\<close>.
\<close>

theorem tangent_selection_mismatch:
  "(uv_oriented_bbox_vertices self = None \<longrightarrow>
      set_bbox_tan_line_points self = Inl AttributeError) \<and>
   (uv_oriented_bbox_vertices self = Some uv \<and> box3d uv \<and>
    lv_oriented_bbox_vertices self = Some lv \<and> box2d lv \<longrightarrow>
      set_bbox_tan_line_points self = Inl IndexError) \<and>
   (uv_oriented_bbox_vertices self = Some uv \<and> box2d uv \<and>
    lv_oriented_bbox_vertices self = Some lv \<and> box3d lv \<longrightarrow>
      set_bbox_tan_line_points self =
        Inr (Some (uv ! 0, uv ! 1, take 2 (lv ! 2), take 2 (lv ! 3)),
             self\<lparr>uv_p1 := Some (uv ! 0), uv_p2 := Some (uv ! 1),
                   lv_p1 := Some (take 2 (lv ! 2)), lv_p2 := Some (take 2 (lv ! 3))\<rparr>)) \<and>
   (uv_oriented_bbox_vertices self = Some uv \<and> (box3d uv \<or> box2d uv) \<and>
    lv_oriented_bbox_vertices self = None \<longrightarrow>
      set_bbox_tan_line_points self = Inl TypeError) \<and>
   set_bbox_tan_line_points self \<noteq> Inl GeometryException"
proof (intro conjI impI)
  assume "uv_oriented_bbox_vertices self = None"
  then show "set_bbox_tan_line_points self = Inl AttributeError"
    by (simp add: set_bbox_tan_line_points_def)
next
  assume a: "uv_oriented_bbox_vertices self = Some uv \<and> box3d uv \<and>
             lv_oriented_bbox_vertices self = Some lv \<and> box2d lv"
  then have "row3 (Some lv) 6 = Inl IndexError"
    by (intro row3_of_short) (simp add: box2d_def)
  with a show "set_bbox_tan_line_points self = Inl IndexError"
    by (simp add: set_bbox_tan_line_points_def box3d_size box3d_row bindE_def)
next
  assume a: "uv_oriented_bbox_vertices self = Some uv \<and> box2d uv \<and>
             lv_oriented_bbox_vertices self = Some lv \<and> box3d lv"
  then have "row2 (Some lv) 2 = Inr (take 2 (lv ! 2))" "row2 (Some lv) 3 = Inr (take 2 (lv ! 3))"
    by (simp_all add: row2_of_vertex3 box3d_def list_all_length)
  with a show "set_bbox_tan_line_points self =
        Inr (Some (uv ! 0, uv ! 1, take 2 (lv ! 2), take 2 (lv ! 3)),
             self\<lparr>uv_p1 := Some (uv ! 0), uv_p2 := Some (uv ! 1),
                   lv_p1 := Some (take 2 (lv ! 2)), lv_p2 := Some (take 2 (lv ! 3))\<rparr>)"
    by (simp add: set_bbox_tan_line_points_def box2d_size box2d_row bindE_def)
next
  assume a: "uv_oriented_bbox_vertices self = Some uv \<and> (box3d uv \<or> box2d uv) \<and>
             lv_oriented_bbox_vertices self = None"
  then consider "box3d uv" | "box2d uv" by blast
  then show "set_bbox_tan_line_points self = Inl TypeError"
  proof cases
    case 1
    with a show ?thesis
      by (simp add: set_bbox_tan_line_points_def box3d_size box3d_row row3_unset bindE_def)
  next
    case 2
    with a show ?thesis
      by (simp add: set_bbox_tan_line_points_def box2d_size box2d_row row2_unset bindE_def)
  qed
next
  show "set_bbox_tan_line_points self \<noteq> Inl GeometryException"
    using set_bbox_raises [of self GeometryException] by auto
qed

lemma cube_rows: "cube z ! 0 = [0, 0, z]" "cube z ! Suc 0 = [1, 0, z]"
  "cube z ! 2 = [0, 1, z]" "cube z ! 3 = [1, 1, z]"
  "cube z ! 6 = [0, 1, z + 1]" "cube z ! 7 = [1, 1, z + 1]"
  by (simp_all add: cube_def)

lemma square_rows: "square y ! 0 = [0, y]" "square y ! Suc 0 = [1, y]"
  "square y ! 2 = [0, y + 1]" "square y ! 3 = [1, y + 1]"
  by (simp_all add: square_def)

lemma with_boxes_sel:
  "uv_oriented_bbox_vertices (with_boxes a b) = a"
  "lv_oriented_bbox_vertices (with_boxes a b) = b"
  by (simp_all add: with_boxes_def)

text \<open>Each of the four cases on cubes and squares.\<close>

theorem tangent_selection_mismatch_witness:
  "set_bbox_tan_line_points (with_boxes None (Some (cube 0))) = Inl AttributeError \<and>
   set_bbox_tan_line_points (with_boxes (Some (cube 10)) (Some (square 0))) = Inl IndexError \<and>
   set_bbox_tan_line_points (with_boxes (Some (square 10)) (Some (cube 0))) =
     Inr (Some ([0, 10], [1, 10], [0, 1], [1, 1]),
          (with_boxes (Some (square 10)) (Some (cube 0)))
            \<lparr>uv_p1 := Some [0, 10], uv_p2 := Some [1, 10],
             lv_p1 := Some [0, 1], lv_p2 := Some [1, 1]\<rparr>) \<and>
   set_bbox_tan_line_points (with_boxes (Some (cube 10)) None) = Inl TypeError \<and>
   set_bbox_tan_line_points (with_boxes (Some (square 10)) None) = Inl TypeError"
  using tangent_selection_mismatch [of "with_boxes None (Some (cube 0))"]
        tangent_selection_mismatch [of "with_boxes (Some (cube 10)) (Some (square 0))" "cube 10" "square 0"]
        tangent_selection_mismatch [of "with_boxes (Some (square 10)) (Some (cube 0))" "square 10" "cube 0"]
        tangent_selection_mismatch [of "with_boxes (Some (cube 10)) None" "cube 10"]
        tangent_selection_mismatch [of "with_boxes (Some (square 10)) None" "square 10"]
  by (simp add: with_boxes_sel box3d_cube box2d_square cube_rows square_rows)

text \<open>
  A square above a cube: the selection returns four points of two coordinates and no
  exception. A cube above a square, and no boxes at all: the exceptions are
  \<open>IndexError\<close> and \<open>AttributeError\<close>.
\<close>

theorem tangent_selection_mismatch_counterexample:
  "set_bbox_tan_line_points (with_boxes (Some (square 10)) (Some (cube 0))) =
     Inr (Some ([0, 10], [1, 10], [0, 1], [1, 1]),
          (with_boxes (Some (square 10)) (Some (cube 0)))
            \<lparr>uv_p1 := Some [0, 10], uv_p2 := Some [1, 10],
             lv_p1 := Some [0, 1], lv_p2 := Some [1, 1]\<rparr>) \<and>
   set_bbox_tan_line_points (with_boxes (Some (cube 10)) (Some (square 0))) = Inl IndexError \<and>
   set_bbox_tan_line_points (with_boxes None None) = Inl AttributeError"
  by (simp add: set_bbox_tan_line_points_def with_boxes_sel size_np_def cube_def square_def
        row3_def row2_def item2_def bindE_def)

subsection \<open>The angle\<close>

lemma np_sub_direction:
  "length p1 = length p2 \<Longrightarrow> np_sub (Some p2) (Some p1) = Inr (direction p1 p2)"
  by (simp add: np_sub_def broadcast_def direction_def)

lemma np_dot_dot: "length u = length v \<Longrightarrow> np_dot u v = Inr (dot u v)"
  by (simp add: np_dot_def dot_def)

lemma np_norm_dot: "np_norm v = sqrt (dot v v)"
  by (simp add: np_norm_def dot_def zip_same_conv_map comp_def)

lemma dot_self_nonneg: "0 \<le> dot v v"
  by (induction v) (simp_all add: dot_def)

lemma dot_self_zero: "dot v v = 0 \<Longrightarrow> c \<in> set v \<Longrightarrow> c = 0"
proof (induction v)
  case Nil
  then show ?case by simp
next
  case (Cons a v)
  have "0 \<le> a * a" "0 \<le> dot v v" by (simp_all add: dot_self_nonneg)
  moreover have "a * a + dot v v = 0" using Cons.prems(1) by (simp add: dot_def)
  ultimately have "a * a = 0" "dot v v = 0" by linarith+
  with Cons show ?case by auto
qed

lemma direction_zero:
  "length p1 = length p2 \<Longrightarrow> \<forall>c \<in> set (direction p1 p2). c = 0 \<Longrightarrow> p1 = p2"
proof (induction p1 p2 rule: list_induct2)
  case Nil
  then show ?case by simp
next
  case (Cons a p1 b p2)
  then show ?case by (simp add: direction_def)
qed

lemma direction_dot_pos:
  assumes "length p1 = length p2" "p1 \<noteq> p2"
  shows "0 < dot (direction p1 p2) (direction p1 p2)"
proof -
  have "dot (direction p1 p2) (direction p1 p2) \<noteq> 0"
    using assms direction_zero dot_self_zero by blast
  then show ?thesis using dot_self_nonneg [of "direction p1 p2"] by linarith
qed

lemma clip_bounds: "- 1 \<le> clip c (- 1) 1 \<and> clip c (- 1) 1 \<le> 1"
  by (simp add: clip_def)

lemma np_clip_clip: "np_clip (Fin c) (- 1) 1 = Fin (clip c (- 1) 1)"
  by (simp add: np_clip_def clip_def min_def max_def)

lemma spec_angle_range: "0 \<le> spec_angle d1 d2 \<and> spec_angle d1 d2 \<le> 180"
proof -
  define c where "c = clip (dot d1 d2 / (sqrt (dot d1 d1) * sqrt (dot d2 d2))) (- 1) 1"
  have b: "- 1 \<le> c" "c \<le> 1" using clip_bounds by (simp_all add: c_def)
  then have "0 \<le> arccos c" "arccos c \<le> pi"
    by (simp_all add: arccos_lbound arccos_ubound)
  then have "0 \<le> arccos c * 180 / pi" "arccos c * 180 / pi \<le> 180"
    by (simp_all add: field_simps)
  then show ?thesis by (simp add: spec_angle_def degrees_def c_def)
qed

lemma calc_angle_regular:
  assumes "uv_p1 self = Some p1" "uv_p2 self = Some p2"
      and "lv_p1 self = Some q1" "lv_p2 self = Some q2"
      and "length p1 = length p2" "length q1 = length q2" "length p1 = length q1"
      and "p1 \<noteq> p2" "q1 \<noteq> q2"
  shows "calc_angle_between_lines self =
           Inr (Fin (spec_angle (direction p1 p2) (direction q1 q2)))"
proof -
  let ?d1 = "direction p1 p2" and ?d2 = "direction q1 q2"
  have len: "length ?d1 = length ?d2" using assms(5-7) by (simp add: direction_def)
  have pos: "0 < dot ?d1 ?d1" "0 < dot ?d2 ?d2"
    using direction_dot_pos [OF assms(5) assms(8)] direction_dot_pos [OF assms(6) assms(9)]
    by simp_all
  let ?c = "dot ?d1 ?d2 / (sqrt (dot ?d1 ?d1) * sqrt (dot ?d2 ?d2))"
  have div: "np_divide (dot ?d1 ?d2) (np_norm ?d1 * np_norm ?d2) = Fin ?c"
    using pos by (simp add: np_divide_def np_norm_dot)
  have "calc_angle_between_lines self =
          Inr (np_degrees (np_arccos (np_clip (np_divide (dot ?d1 ?d2) (np_norm ?d1 * np_norm ?d2)) (- 1) 1)))"
    using assms(1-6) len
    by (simp add: calc_angle_between_lines_def np_sub_direction np_dot_dot bindE_def Let_def)
  also have "\<dots> = Inr (Fin (degrees (arccos (clip ?c (- 1) 1))))"
    using clip_bounds [of ?c]
    by (simp only: div np_clip_clip) (simp add: np_arccos_def np_degrees_def degrees_def)
  finally show ?thesis by (simp add: spec_angle_def)
qed

lemma with_lines_sel:
  "uv_p1 (with_lines p1 p2 q1 q2) = p1" "uv_p2 (with_lines p1 p2 q1 q2) = p2"
  "lv_p1 (with_lines p1 p2 q1 q2) = q1" "lv_p2 (with_lines p1 p2 q1 q2) = q2"
  by (simp_all add: with_lines_def)

lemma direction_same: "c \<in> set (direction p p) \<Longrightarrow> c = 0"
  by (induction p) (auto simp: direction_def)

lemma dot_zero_left: "\<forall>c \<in> set u. c = 0 \<Longrightarrow> dot u v = 0"
proof (induction u arbitrary: v)
  case Nil
  then show ?case by (simp add: dot_def)
next
  case (Cons a u)
  then show ?case by (cases v) (simp_all add: dot_def)
qed

lemma dot_zero_right: "\<forall>c \<in> set v. c = 0 \<Longrightarrow> dot u v = 0"
proof (induction u arbitrary: v)
  case Nil
  then show ?case by (simp add: dot_def)
next
  case (Cons a u)
  then show ?case by (cases v) (simp_all add: dot_def)
qed

lemma nan_of_zero_norm:
  assumes "d = 0" "n1 * n2 = 0"
  shows "np_degrees (np_arccos (np_clip (np_divide d (n1 * n2)) (- 1) 1)) = NaN"
  using assms by (simp add: np_divide_def np_clip_def np_arccos_def np_degrees_def)

text \<open>
  Claim C4, as the code has it. When the two end points of a tangent line coincide (all
  four points of the same dimension), the angle computation raises nothing: it has no
  check of the norms, divides 0 by 0 and returns \<open>nan\<close>.
\<close>

theorem degenerate_line_angle:
  assumes "uv_p1 self = Some p1" "uv_p2 self = Some p2"
      and "lv_p1 self = Some q1" "lv_p2 self = Some q2"
      and "length p1 = length p2" "length q1 = length q2" "length p1 = length q1"
      and "p1 = p2 \<or> q1 = q2"
  shows "calc_angle_between_lines self = Inr NaN"
proof -
  let ?d1 = "direction p1 p2" and ?d2 = "direction q1 q2"
  have len: "length ?d1 = length ?d2" using assms(5-7) by (simp add: direction_def)
  have zero: "(\<forall>c \<in> set ?d1. c = 0) \<or> (\<forall>c \<in> set ?d2. c = 0)"
    using assms(8) direction_same by blast
  then have d: "dot ?d1 ?d2 = 0"
    using dot_zero_left dot_zero_right by blast
  from zero have "dot ?d1 ?d1 = 0 \<or> dot ?d2 ?d2 = 0"
    using dot_zero_left by blast
  then have n: "np_norm ?d1 * np_norm ?d2 = 0"
    by (auto simp: np_norm_dot)
  have "calc_angle_between_lines self =
          Inr (np_degrees (np_arccos (np_clip (np_divide (dot ?d1 ?d2) (np_norm ?d1 * np_norm ?d2)) (- 1) 1)))"
    using assms(1-6) len
    by (simp add: calc_angle_between_lines_def np_sub_direction np_dot_dot bindE_def Let_def)
  then show ?thesis by (simp only: nan_of_zero_norm [OF d n])
qed

text \<open>A degenerate upper line in three dimensions, a degenerate lower line in two.\<close>

theorem degenerate_line_angle_witness:
  "calc_angle_between_lines
     (with_lines (Some [1, 2, 3]) (Some [1, 2, 3]) (Some [0, 0, 0]) (Some [1, 0, 0])) = Inr NaN \<and>
   calc_angle_between_lines
     (with_lines (Some [0, 0]) (Some [1, 0]) (Some [4, 5]) (Some [4, 5])) = Inr NaN"
  using degenerate_line_angle
          [of "with_lines (Some [1, 2, 3]) (Some [1, 2, 3]) (Some [0, 0, 0]) (Some [1, 0, 0])"
              "[1, 2, 3]" "[1, 2, 3]" "[0, 0, 0]" "[1, 0, 0]"]
        degenerate_line_angle
          [of "with_lines (Some [0, 0]) (Some [1, 0]) (Some [4, 5]) (Some [4, 5])"
              "[0, 0]" "[1, 0]" "[4, 5]" "[4, 5]"]
  by (simp add: with_lines_sel)

text \<open>
  The upper line from (1, 2, 3) to (1, 2, 3): the computation returns \<open>nan\<close>
  and no exception.
\<close>

theorem degenerate_line_angle_counterexample:
  "calc_angle_between_lines
     (with_lines (Some [1, 2, 3]) (Some [1, 2, 3]) (Some [0, 0, 0]) (Some [1, 0, 0])) = Inr NaN"
  by (simp add: calc_angle_between_lines_def with_lines_sel np_sub_def broadcast_def
        np_dot_def np_norm_def np_divide_def np_clip_def np_arccos_def np_degrees_def bindE_def)

lemma np_sub_raises: "np_sub (Some a) (Some b) = Inl e \<Longrightarrow> e = ValueError"
  by (auto simp: np_sub_def broadcast_def split: if_splits)

lemma dot_commute: "dot u v = dot v u"
proof -
  have "map2 (*) u v = map2 (*) v u"
    by (subst zip_commute) (simp add: case_prod_unfold mult.commute)
  then show ?thesis by (simp add: dot_def)
qed

lemma np_dot_commute: "np_dot u v = np_dot v u"
  using dot_commute [of u v] by (auto simp: np_dot_def dot_def)

text \<open>
  Claim C9. The angle computation is symmetric: with the two tangent lines exchanged it
  gives the same result. This holds for all four points set, whatever their directions.
\<close>

theorem angle_symmetric:
  assumes "uv_p1 self = Some p1" "uv_p2 self = Some p2"
      and "lv_p1 self = Some q1" "lv_p2 self = Some q2"
  shows "calc_angle_between_lines (swap_lines self) = calc_angle_between_lines self"
proof -
  define body where "body l1 l2 =
      bindE (np_dot l1 l2) (\<lambda>dot_product.
        Inr (np_degrees (np_arccos (np_clip
          (np_divide dot_product (np_norm l1 * np_norm l2)) (- 1) 1))))" for l1 l2
  have sym: "body l1 l2 = body l2 l1" for l1 l2
    by (simp add: body_def np_dot_commute [of l1 l2] mult.commute)
  have a: "calc_angle_between_lines self =
             bindE (np_sub (Some p2) (Some p1)) (\<lambda>l1.
               bindE (np_sub (Some q2) (Some q1)) (\<lambda>l2. body l1 l2))"
    using assms by (simp add: calc_angle_between_lines_def body_def Let_def)
  have b: "calc_angle_between_lines (swap_lines self) =
             bindE (np_sub (Some q2) (Some q1)) (\<lambda>l2.
               bindE (np_sub (Some p2) (Some p1)) (\<lambda>l1. body l2 l1))"
    using assms by (simp add: calc_angle_between_lines_def swap_lines_def body_def Let_def)
  show ?thesis
    unfolding a b
    by (auto simp: bindE_def sym split: sum.splits dest!: np_sub_raises)
qed

text \<open>The two perpendicular lines, exchanged.\<close>

theorem angle_symmetric_witness:
  "calc_angle_between_lines
     (swap_lines (with_lines (Some [0, 0, 0]) (Some [1, 0, 0]) (Some [0, 0, 0]) (Some [0, 1, 0]))) =
   calc_angle_between_lines
     (with_lines (Some [0, 0, 0]) (Some [1, 0, 0]) (Some [0, 0, 0]) (Some [0, 1, 0])) \<and>
   swap_lines (with_lines (Some [0, 0, 0]) (Some [1, 0, 0]) (Some [0, 0, 0]) (Some [0, 1, 0])) =
     with_lines (Some [0, 0, 0]) (Some [0, 1, 0]) (Some [0, 0, 0]) (Some [1, 0, 0])"
  using angle_symmetric
          [of "with_lines (Some [0, 0, 0]) (Some [1, 0, 0]) (Some [0, 0, 0]) (Some [0, 1, 0])"
              "[0, 0, 0]" "[1, 0, 0]" "[0, 0, 0]" "[0, 1, 0]"]
  by (simp add: with_lines_sel) (simp add: swap_lines_def with_lines_def)

subsection \<open>The angle on doubles\<close>

lemma np_sub_fp_direction:
  "length p1 = length p2 \<Longrightarrow> np_sub_fp ar (Some p2) (Some p1) = Inr (direction_fp ar p1 p2)"
  by (simp add: np_sub_fp_def broadcast_def direction_fp_def)

lemma direction_fp_length: "length p1 = length p2 \<Longrightarrow> length (direction_fp ar p1 p2) = length p1"
  by (simp add: direction_fp_def)

lemma calc_angle_fp_cosine:
  assumes "uv_p1 self = Some p1" "uv_p2 self = Some p2"
      and "lv_p1 self = Some q1" "lv_p2 self = Some q2"
      and "length p1 = length p2" "length q1 = length q2" "length p1 = length q1"
  shows "calc_angle_between_lines_fp ar self =
           Inr (np_degrees_fp ar (np_arccos_fp ar
                  (np_clip (cosine_fp ar (direction_fp ar p1 p2) (direction_fp ar q1 q2)) (- 1) 1)))"
  using assms
  by (simp add: calc_angle_between_lines_fp_def np_sub_fp_direction np_dot_fp_def
        direction_fp_length cosine_fp_def bindE_def Let_def)

lemma np_clip_range:
  "v \<noteq> NaN \<Longrightarrow> \<exists>c. np_clip v (- 1) 1 = Fin c \<and> - 1 \<le> c \<and> c \<le> 1"
  by (cases v) (simp_all add: np_clip_def)

lemma np_clip_nan: "np_clip NaN lo hi = NaN"
  by (simp add: np_clip_def)

lemma angle_of_nan: "np_degrees_fp ar (np_arccos_fp ar NaN) = NaN"
  by (simp add: np_arccos_fp_def np_degrees_fp_def)

lemma angle_of_cosine:
  assumes "angles_in_range ar" "- 1 \<le> c" "c \<le> 1"
  shows "\<exists>v. np_degrees_fp ar (np_arccos_fp ar (Fin c)) = Fin v \<and> 0 \<le> v \<and> v \<le> 180"
  using assms by (simp add: angles_in_range_def np_arccos_fp_def)

text \<open>
  Claim C2, as the code has it. For two tangent lines of one dimension the angle
  computation returns \<open>degrees (arccos (clip q (-1) 1))\<close>, where \<open>q\<close> is the quotient
  \<open>(d1 . d2) / (|d1| |d2|)\<close> as the arithmetic of doubles gives it. The quotient is
  clipped before the inverse cosine: unless it is \<open>nan\<close>, the inverse cosine receives a
  number from -1 to 1, and, the two library functions taking such a number to an angle
  from 0 to 180 degrees (as those of \<open>binary64\<close> do), the value returned lies between
  0 and 180. When the quotient is \<open>nan\<close>, so is the value returned; directions that
  are not zero do not exclude it. This holds for every rounding, so also for one that
  carries the quotient beyond 1.
\<close>

theorem angle_between_lines_fp:
  assumes "uv_p1 self = Some p1" "uv_p2 self = Some p2"
      and "lv_p1 self = Some q1" "lv_p2 self = Some q2"
      and "length p1 = length p2" "length q1 = length q2" "length p1 = length q1"
  shows "calc_angle_between_lines_fp ar self =
           Inr (np_degrees_fp ar (np_arccos_fp ar
                  (np_clip (cosine_fp ar (direction_fp ar p1 p2) (direction_fp ar q1 q2)) (- 1) 1))) \<and>
         (cosine_fp ar (direction_fp ar p1 p2) (direction_fp ar q1 q2) \<noteq> NaN \<longrightarrow>
            (\<exists>c. np_clip (cosine_fp ar (direction_fp ar p1 p2) (direction_fp ar q1 q2)) (- 1) 1 = Fin c \<and>
                 - 1 \<le> c \<and> c \<le> 1)) \<and>
         (cosine_fp ar (direction_fp ar p1 p2) (direction_fp ar q1 q2) \<noteq> NaN \<and>
          angles_in_range ar \<longrightarrow>
            (\<exists>v. calc_angle_between_lines_fp ar self = Inr (Fin v) \<and> 0 \<le> v \<and> v \<le> 180)) \<and>
         (cosine_fp ar (direction_fp ar p1 p2) (direction_fp ar q1 q2) = NaN \<longrightarrow>
            calc_angle_between_lines_fp ar self = Inr NaN)"
proof -
  let ?q = "cosine_fp ar (direction_fp ar p1 p2) (direction_fp ar q1 q2)"
  have res: "calc_angle_between_lines_fp ar self =
               Inr (np_degrees_fp ar (np_arccos_fp ar (np_clip ?q (- 1) 1)))"
    by (rule calc_angle_fp_cosine [OF assms])
  have rng: "\<exists>v. calc_angle_between_lines_fp ar self = Inr (Fin v) \<and> 0 \<le> v \<and> v \<le> 180"
    if "?q \<noteq> NaN" "angles_in_range ar"
  proof -
    from np_clip_range [OF that(1)] obtain c
      where c: "np_clip ?q (- 1) 1 = Fin c" "- 1 \<le> c" "c \<le> 1" by blast
    from angle_of_cosine [OF that(2) c(2,3)] show ?thesis
      by (simp add: res c(1))
  qed
  have nan: "calc_angle_between_lines_fp ar self = Inr NaN" if "?q = NaN"
    by (simp add: res that np_clip_nan angle_of_nan)
  show ?thesis
    using res np_clip_range [of ?q] rng nan by blast
qed

text \<open>The arithmetic without rounding.\<close>

lemma exact_round: "ar_round exact a = Fin a"
  by (simp add: exact_def)

lemma exact_ops:
  "fl_sub exact (Fin a) (Fin b) = Fin (a - b)"
  "fl_add exact (Fin a) (Fin b) = Fin (a + b)"
  "fl_mul exact (Fin a) (Fin b) = Fin (a * b)"
  "fl_div exact (Fin a) (Fin b) = np_divide a b"
  by (simp_all add: exact_def fl_sub_def np_divide_def inf_of_def)

lemma exact_sqrt: "0 \<le> a \<Longrightarrow> fl_sqrt exact (Fin a) = Fin (sqrt a)"
  by (simp add: exact_def)

lemma exact_sum_from: "foldl (fl_add exact) (Fin a) (map Fin vs) = Fin (a + sum_list vs)"
  by (induction vs arbitrary: a) (simp_all add: exact_round add.assoc)

lemma exact_sum: "fl_sum exact (map Fin vs) = Fin (sum_list vs)"
  by (simp add: fl_sum_def exact_sum_from)

lemma exact_products: "map2 (fl_mul exact) (map Fin u) (map Fin v) = map Fin (map2 (*) u v)"
  by (simp add: zip_map_map exact_round split: prod.splits)

lemma exact_squares: "map (\<lambda>c. fl_mul exact c c) (map Fin v) = map Fin (map (\<lambda>c. c * c) v)"
  by (simp add: exact_round)

lemma exact_direction:
  "length p1 = length p2 \<Longrightarrow> direction_fp exact p1 p2 = map Fin (direction p1 p2)"
  by (simp add: direction_fp_def direction_def fl_sub_def exact_round split: prod.splits)

lemma exact_norm: "np_norm_fp exact (map Fin v) = Fin (np_norm v)"
proof -
  have "0 \<le> sum_list (map (\<lambda>c. c * c) v)"
    by (induction v) simp_all
  then show ?thesis
    by (simp only: np_norm_fp_def exact_squares exact_sum exact_sqrt np_norm_def)
qed

lemma exact_cosine:
  "cosine_fp exact (map Fin u) (map Fin v) = np_divide (dot u v) (np_norm u * np_norm v)"
  by (simp only: cosine_fp_def exact_products exact_sum exact_norm exact_ops dot_def)

lemma exact_arccos: "np_arccos_fp exact v = np_arccos v"
  by (cases v) (simp_all add: np_arccos_fp_def np_arccos_def exact_def)

lemma exact_degrees: "np_degrees_fp exact v = np_degrees v"
  by (cases v) (simp_all add: np_degrees_fp_def np_degrees_def exact_def)

lemma exact_angles_in_range: "angles_in_range exact"
proof -
  have "0 \<le> arccos c * 180 / pi \<and> arccos c * 180 / pi \<le> 180" if "- 1 \<le> c" "c \<le> 1" for c
  proof -
    from that have "0 \<le> arccos c" "arccos c \<le> pi"
      by (simp_all add: arccos_lbound arccos_ubound)
    then show ?thesis by (simp add: field_simps)
  qed
  then show ?thesis
    by (simp add: angles_in_range_def np_degrees_fp_def exact_def)
qed

text \<open>Rounding to a double.\<close>

lemma round_half_even_int: "round_half_even (of_int m) = m"
  by (simp add: round_half_even_def)

lemma round_half_even_small:
  assumes "0 < r" "r \<le> 1 / 2"
  shows "round_half_even r = 0"
proof -
  have "\<lfloor>r\<rfloor> = 0" using assms by (simp add: floor_eq_iff)
  then show ?thesis using assms by (simp add: round_half_even_def)
qed

lemma round64_zero: "round64 0 = Fin 0"
  by (simp add: round64_def)

lemma round64_underflow:
  assumes "0 < a" "a \<le> 2 powr (- 1075)"
  shows "round64 a = Fin 0"
proof -
  define f where "f = \<lfloor>log 2 \<bar>a\<bar>\<rfloor>"
  have "log 2 a \<le> - 1075"
    using assms by (subst log_le_iff) simp_all
  then have "\<lfloor>log 2 a\<rfloor> \<le> \<lfloor>- 1075 :: real\<rfloor>" by (rule floor_mono)
  moreover have "\<bar>a\<bar> = a" using assms(1) by simp
  ultimately have "f \<le> - 1075" unfolding f_def by simp
  then have e: "max (f - 52) (- 1074) = - 1074" by linarith
  have "a / 2 powr (- 1074) \<le> 2 powr (- 1075) / 2 powr (- 1074)"
    using assms(2) by (simp add: divide_right_mono)
  also have "\<dots> = 2 powr (- 1)" by (simp add: powr_diff [symmetric])
  also have "\<dots> = 1 / 2" by (simp add: powr_minus_divide)
  finally have "a / 2 powr (- 1074) \<le> 1 / 2" .
  moreover have "0 < a / 2 powr (- 1074)" using assms(1) by simp
  ultimately have r: "round_half_even (a / 2 powr (- 1074)) = 0"
    by (intro round_half_even_small)
  have "a \<noteq> 0" using assms(1) by simp
  then show ?thesis
    unfolding round64_def Let_def f_def [symmetric] e by (simp add: r)
qed

lemma round64_power_of_two:
  assumes "- 1074 \<le> k" "k \<le> 1023"
  shows "round64 (2 powr of_int k) = Fin (2 powr of_int k)"
proof -
  define e where "e = max (k - 52) (- 1074)"
  have ek: "e \<le> k" using assms(1) by (simp add: e_def)
  have "\<lfloor>log 2 \<bar>2 powr of_int k\<bar>\<rfloor> = k" by simp
  then have e: "max (\<lfloor>log 2 \<bar>2 powr of_int k\<bar>\<rfloor> - 52) (- 1074) = e"
    by (simp add: e_def)
  have "(2::real) powr of_int k / 2 powr of_int e = 2 powr of_int (k - e)"
    by (simp add: powr_diff)
  also have "\<dots> = 2 powr real (nat (k - e))" using ek by simp
  also have "\<dots> = of_int (2 ^ nat (k - e))" by (simp add: powr_realpow)
  finally have m: "(2::real) powr of_int k / 2 powr of_int e = of_int (2 ^ nat (k - e))" .
  have "of_int (round_half_even (2 powr of_int k / 2 powr of_int e)) * 2 powr of_int e =
          (2::real) powr of_int k / 2 powr of_int e * 2 powr of_int e"
    by (simp only: m round_half_even_int)
  also have "\<dots> = 2 powr of_int k" by simp
  finally have y: "of_int (round_half_even (2 powr of_int k / 2 powr of_int e)) * 2 powr of_int e =
                     (2::real) powr of_int k" .
  have "(2::real) powr of_int k \<le> 2 powr real (1023::nat)"
    using assms(2) by (intro powr_mono) simp_all
  also have "\<dots> = 2 ^ 1023" by (rule powr_realpow) simp
  also have "\<dots> < (2::real) ^ 1024" by (rule power_strict_increasing) simp_all
  finally have lt: "(2::real) powr of_int k < 2 ^ 1024" .
  have pos: "0 < (2::real) powr of_int k" by simp
  have small: "\<not> 2 ^ 1024 \<le> \<bar>2 powr of_int k :: real\<bar>"
    using lt by (simp only: abs_of_pos [OF pos] not_le)
  show ?thesis
    unfolding round64_def Let_def e y using small by simp
qed

lemma np_sub_fp_exact:
  "np_sub_fp exact a b = (case np_sub a b of Inl e \<Rightarrow> Inl e | Inr v \<Rightarrow> Inr (map Fin v))"
  by (auto simp: np_sub_fp_def np_sub_def broadcast_def fl_sub_def exact_round
           split: option.splits prod.splits)

lemma np_dot_fp_exact:
  "np_dot_fp exact (map Fin u) (map Fin v) =
     (case np_dot u v of Inl e \<Rightarrow> Inl e | Inr d \<Rightarrow> Inr (Fin d))"
proof (cases "length u = length v")
  case True
  then have "np_dot_fp exact (map Fin u) (map Fin v) =
               Inr (fl_sum exact (map2 (fl_mul exact) (map Fin u) (map Fin v)))"
    by (simp add: np_dot_fp_def)
  also have "\<dots> = Inr (Fin (sum_list (map2 (*) u v)))"
    by (simp only: exact_products exact_sum)
  finally show ?thesis using True by (simp add: np_dot_def)
next
  case False
  then show ?thesis by (simp add: np_dot_fp_def np_dot_def)
qed

text \<open>With the arithmetic without rounding, the embedding over doubles is the
  embedding over real numbers.\<close>

lemma calc_angle_fp_exact:
  "calc_angle_between_lines_fp exact self = calc_angle_between_lines self"
proof -
  have body: "bindE (np_dot_fp exact (map Fin u) (map Fin v)) (\<lambda>d.
                Inr (np_degrees_fp exact (np_arccos_fp exact (np_clip
                  (fl_div exact d (fl_mul exact (np_norm_fp exact (map Fin u))
                    (np_norm_fp exact (map Fin v)))) (- 1) 1)))) =
              bindE (np_dot u v) (\<lambda>d.
                Inr (np_degrees (np_arccos (np_clip
                  (np_divide d (np_norm u * np_norm v)) (- 1) 1))))" for u v
    by (simp add: np_dot_fp_exact exact_norm exact_round exact_arccos exact_degrees bindE_def
          np_divide_def inf_of_def split: sum.splits)
  show ?thesis
    unfolding calc_angle_between_lines_fp_def calc_angle_between_lines_def Let_def
      np_sub_fp_exact
    by (auto simp: bindE_def body [unfolded bindE_def] split: sum.splits)
qed

text \<open>The two tiny perpendicular lines in the arithmetic of doubles.\<close>

lemma tiny_pos: "0 < tiny"
  by (simp add: tiny_def)

lemma round64_tiny: "round64 tiny = Fin tiny"
  using round64_power_of_two [of "- 600"] by (simp add: tiny_def)

lemma round64_tiny_square: "round64 (tiny * tiny) = Fin 0"
proof -
  have "tiny * tiny = 2 powr (- 1200)"
    by (simp add: tiny_def powr_add [symmetric])
  moreover have "(2::real) powr (- 1200) \<le> 2 powr (- 1075)"
    by (intro powr_mono) simp_all
  ultimately show ?thesis
    by (intro round64_underflow) simp_all
qed

lemma binary64_round: "ar_round binary64 = round64"
  by (simp add: binary64_def)

lemma tiny_directions:
  "direction_fp binary64 [0, 0, 0] [tiny, 0, 0] = [Fin tiny, Fin 0, Fin 0]"
  "direction_fp binary64 [0, 0, 0] [0, tiny, 0] = [Fin 0, Fin tiny, Fin 0]"
  by (simp_all add: direction_fp_def fl_sub_def binary64_round round64_tiny round64_zero)

lemma tiny_cosine:
  "cosine_fp binary64 [Fin tiny, Fin 0, Fin 0] [Fin 0, Fin tiny, Fin 0] = NaN"
  by (simp add: cosine_fp_def np_norm_fp_def fl_sum_def binary64_round
        round64_tiny_square round64_zero)

text \<open>Bounds on the rounding to a double.\<close>

lemma round_half_even_nonneg: "0 \<le> r \<Longrightarrow> 0 \<le> round_half_even r"
  by (simp add: round_half_even_def Let_def)

lemma round_half_even_le:
  assumes "r < of_int n + 1 / 2"
  shows "round_half_even r \<le> n"
proof (cases "\<lfloor>r\<rfloor> < n")
  case True
  then show ?thesis by (simp add: round_half_even_def Let_def)
next
  case False
  have "\<lfloor>r\<rfloor> \<le> n" using assms by (simp add: floor_le_iff)
  with False have f: "\<lfloor>r\<rfloor> = n" by simp
  then show ?thesis using assms by (simp add: round_half_even_def Let_def)
qed

lemma round_half_even_near: "of_int (round_half_even r) \<le> r + 1 / 2"
proof -
  define f where "f = \<lfloor>r\<rfloor>"
  have "real_of_int f \<le> r" unfolding f_def by simp
  then show ?thesis
    unfolding round_half_even_def Let_def f_def [symmetric]
    by (simp del: of_int_floor_le)
qed

text \<open>The double of a positive number below \<open>2^1023\<close>, by the exponent \<open>e\<close> of its
  last place.\<close>

lemma round64_positive:
  assumes "0 < a" "a < 2 ^ 1023"
  shows "\<exists>e (y::real). e = max (\<lfloor>log 2 a\<rfloor> - 52) (- 1074) \<and>
               y = of_int (round_half_even (a / 2 powr of_int e)) * 2 powr of_int e \<and>
               round64 a = Fin y \<and> 0 \<le> y"
proof -
  define e where "e = max (\<lfloor>log 2 a\<rfloor> - 52) (- 1074)"
  define y :: real
    where "y = of_int (round_half_even (a / 2 powr of_int e)) * 2 powr of_int e"
  have abs: "\<bar>a\<bar> = a" using assms(1) by simp
  have "0 \<le> a / 2 powr of_int e" using assms(1) by simp
  then have y0: "0 \<le> y"
    unfolding y_def by (intro mult_nonneg_nonneg) (simp_all add: round_half_even_nonneg)
  have "log 2 a < 1023"
    using assms by (subst log_less_iff) (simp_all add: powr_realpow [where n = 1023, simplified])
  then have "\<lfloor>log 2 a\<rfloor> \<le> 1022" by (simp add: floor_le_iff)
  then have e1: "e \<le> 970" by (simp add: e_def)
  have "a / 2 powr of_int e < 2 ^ 1023 / 2 powr of_int e"
    using assms(2) by (simp add: divide_strict_right_mono)
  have "y \<le> (a / 2 powr of_int e + 1 / 2) * 2 powr of_int e"
    unfolding y_def by (intro mult_right_mono round_half_even_near) simp
  also have "\<dots> = a + 2 powr of_int e / 2" by (simp add: field_simps)
  also have "\<dots> < 2 ^ 1023 + 2 ^ 970 / 2"
  proof -
    have "(2::real) powr of_int e \<le> 2 powr real (970::nat)"
      using e1 by (intro powr_mono) simp_all
    also have "\<dots> = 2 ^ 970" by (rule powr_realpow) simp
    finally show ?thesis using assms(2) by simp
  qed
  also have "\<dots> \<le> (2::real) ^ 1024" by simp
  finally have "y < 2 ^ 1024" .
  with y0 have "\<not> 2 ^ 1024 \<le> \<bar>y\<bar>" by simp
  then have "round64 a = Fin y"
    using assms(1) unfolding round64_def Let_def abs e_def [symmetric] y_def [symmetric]
    by simp
  with y0 show ?thesis using e_def y_def by blast
qed

lemma powr_le_inverse_power:
  assumes "e \<le> - int n"
  shows "(2::real) powr of_int e \<le> 1 / 2 ^ n"
proof -
  have "(2::real) powr of_int e \<le> 2 powr (- real n)"
    using assms by (intro powr_mono) simp_all
  also have "\<dots> = 1 / 2 powr real n" by (simp add: powr_minus_divide)
  also have "\<dots> = 1 / 2 ^ n" by (simp add: powr_realpow)
  finally show ?thesis .
qed

lemma pi_ge_three: "3 \<le> pi"
proof -
  have "sin (pi / 6) \<le> pi / 6" by (rule sin_x_le_x) simp
  then show ?thesis by (simp add: sin_30)
qed

lemma round64_below_four:
  assumes "0 \<le> a" "a < 4"
  shows "\<exists>y. round64 a = Fin y \<and> 0 \<le> y \<and> y \<le> a + 1 / 2 ^ 52"
proof (cases "a = 0")
  case True
  then show ?thesis by (simp add: round64_def)
next
  case False
  with assms have pos: "0 < a" by simp
  have "a < 2 ^ 1023" using assms(2) by (rule less_le_trans) simp
  from round64_positive [OF pos this] obtain e y
    where e: "e = max (\<lfloor>log 2 a\<rfloor> - 52) (- 1074)"
      and y: "y = of_int (round_half_even (a / 2 powr of_int e)) * 2 powr of_int e"
      and r: "round64 a = Fin y" "0 \<le> y"
    by blast
  have "log 2 a < 2"
    using pos assms(2) by (subst log_less_iff) simp_all
  then have "\<lfloor>log 2 a\<rfloor> \<le> 1" by (simp add: floor_le_iff)
  then have "e \<le> - int 51" by (simp add: e)
  then have p: "(2::real) powr of_int e \<le> 1 / 2 ^ 51" by (rule powr_le_inverse_power)
  have "y \<le> (a / 2 powr of_int e + 1 / 2) * 2 powr of_int e"
    unfolding y by (intro mult_right_mono round_half_even_near) simp
  also have "\<dots> = a + 2 powr of_int e / 2" by (simp add: field_simps)
  also have "\<dots> \<le> a + 1 / 2 ^ 52" using p by simp
  finally show ?thesis using r by blast
qed

lemma round64_up_to_180:
  assumes "0 \<le> a" "a < 180 + 1 / 2 ^ 46"
  shows "\<exists>y. round64 a = Fin y \<and> 0 \<le> y \<and> y \<le> 180"
proof (cases "a = 0")
  case True
  then show ?thesis by (simp add: round64_def)
next
  case False
  with assms have pos: "0 < a" by simp
  have a256: "a < 256" using assms(2) by (rule less_le_trans) simp
  then have "a < 2 ^ 1023" by (rule less_le_trans) simp
  from round64_positive [OF pos this] obtain e y
    where e: "e = max (\<lfloor>log 2 a\<rfloor> - 52) (- 1074)"
      and y: "y = of_int (round_half_even (a / 2 powr of_int e)) * 2 powr of_int e"
      and r: "round64 a = Fin y" "0 \<le> y"
    by blast
  have "y \<le> 180"
  proof (cases "a < 128")
    case True
    then have "log 2 a < 7"
      using pos by (subst log_less_iff) simp_all
    then have "\<lfloor>log 2 a\<rfloor> \<le> 6" by (simp add: floor_le_iff)
    then have e0: "e \<le> 0" by (simp add: e)
    have int: "128 / (2::real) powr of_int e = of_int (128 * 2 ^ nat (- e))"
    proof -
      have "128 / (2::real) powr of_int e = 128 * 2 powr (- of_int e)"
        by (simp add: powr_minus_divide)
      also have "\<dots> = 128 * 2 powr real (nat (- e))"
        using e0 by simp
      also have "\<dots> = 128 * 2 ^ nat (- e)" by (simp add: powr_realpow)
      finally show ?thesis by simp
    qed
    have "a / 2 powr of_int e < 128 / 2 powr of_int e"
      using True by (simp add: divide_strict_right_mono)
    then have "a / 2 powr of_int e < real_of_int (128 * 2 ^ nat (- e))"
      by (simp only: int)
    then have "a / 2 powr of_int e < real_of_int (128 * 2 ^ nat (- e)) + 1 / 2"
      by linarith
    then have "round_half_even (a / 2 powr of_int e) \<le> 128 * 2 ^ nat (- e)"
      by (rule round_half_even_le)
    then have "real_of_int (round_half_even (a / 2 powr of_int e)) \<le> 128 / 2 powr of_int e"
      unfolding int by (simp only: of_int_le_iff)
    then have "y \<le> 128 / 2 powr of_int e * 2 powr of_int e"
      unfolding y by (intro mult_right_mono) simp_all
    then show ?thesis by simp
  next
    case False
    then have "7 \<le> log 2 a"
      using pos by (subst le_log_iff) simp_all
    moreover have "log 2 a < 8"
      using pos a256 by (subst log_less_iff) simp_all
    ultimately have "\<lfloor>log 2 a\<rfloor> = 7" by (simp add: floor_eq_iff)
    then have e45: "e = - 45" by (simp add: e)
    have p: "(2::real) powr (- 45) = 1 / 2 ^ 45"
      by (simp add: powr_minus_divide powr_realpow [where n = 45, simplified])
    have "a / 2 powr of_int e = a * 2 ^ 45" by (simp add: e45 p)
    also have "\<dots> < (180 + 1 / 2 ^ 46) * 2 ^ 45"
      using assms(2) by (intro mult_strict_right_mono) simp_all
    also have "\<dots> = of_int (180 * 2 ^ 45) + 1 / 2" by simp
    finally have "round_half_even (a / 2 powr of_int e) \<le> 180 * 2 ^ 45"
      by (rule round_half_even_le)
    then have "real_of_int (round_half_even (a / 2 powr of_int e)) \<le> 180 * 2 ^ 45"
      by (simp only: of_int_le_iff [symmetric, where 'a = real]) simp
    then have "y \<le> 180 * 2 ^ 45 * 2 powr of_int e"
      unfolding y by (intro mult_right_mono) simp_all
    then show ?thesis by (simp add: e45 p)
  qed
  with r show ?thesis by blast
qed

text \<open>The arithmetic of doubles keeps what the program relies on: the rounded inverse
  cosine of a number from -1 to 1, converted to degrees and rounded, lies between 0 and
  180.\<close>

lemma binary64_angles_in_range: "angles_in_range binary64"
proof -
  have "\<exists>v. round64 (r * 180 / pi) = Fin v \<and> 0 \<le> v \<and> v \<le> 180"
    if "round64 (arccos c) = Fin r" "- 1 \<le> c" "c \<le> 1" for c r
  proof -
    have a: "0 \<le> arccos c" "arccos c \<le> pi"
      using that(2,3) by (simp_all add: arccos_lbound arccos_ubound)
    then have "arccos c < 4" using pi_less_4 by linarith
    from round64_below_four [OF a(1) this] that(1)
    have r: "0 \<le> r" "r \<le> arccos c + 1 / 2 ^ 52" by simp_all
    then have "r \<le> pi + 1 / 2 ^ 52" using a(2) by linarith
    then have "r * 180 / pi \<le> (pi + 1 / 2 ^ 52) * 180 / pi"
      by (intro divide_right_mono mult_right_mono) simp_all
    also have "\<dots> = 180 + (180 / pi) / 2 ^ 52" by (simp add: field_simps)
    also have "\<dots> < 180 + 64 / 2 ^ 52"
    proof -
      have "180 / pi \<le> 180 / 3" using pi_ge_three by (intro divide_left_mono) simp_all
      then have "180 / pi < 64" by simp
      then have "180 / pi / 2 ^ 52 < 64 / 2 ^ 52"
        by (intro divide_strict_right_mono) simp_all
      then show ?thesis by linarith
    qed
    also have "\<dots> = 180 + 1 / 2 ^ 46" by simp
    finally have "r * 180 / pi < 180 + 1 / 2 ^ 46" .
    moreover have "0 \<le> r * 180 / pi" using r(1) by simp
    ultimately show ?thesis by (intro round64_up_to_180)
  qed
  moreover have "\<exists>r. round64 (arccos c) = Fin r" if "- 1 \<le> c" "c \<le> 1" for c
  proof -
    have a: "0 \<le> arccos c" "arccos c \<le> pi"
      using that by (simp_all add: arccos_lbound arccos_ubound)
    then have "arccos c < 4" using pi_less_4 by linarith
    from round64_below_four [OF a(1) this] show ?thesis by blast
  qed
  ultimately show ?thesis
    unfolding angles_in_range_def
    by (fastforce simp: np_degrees_fp_def binary64_def)
qed

text \<open>Two parallel unit lines in the arithmetic of doubles.\<close>

lemma round64_one: "round64 1 = Fin 1"
  using round64_power_of_two [of 0] by simp

lemma unit_direction:
  "direction_fp binary64 [0, 0, 0] [1, 0, 0] = [Fin 1, Fin 0, Fin 0]"
  by (simp add: direction_fp_def fl_sub_def binary64_round round64_one round64_zero)

lemma unit_cosine:
  "cosine_fp binary64 [Fin 1, Fin 0, Fin 0] [Fin 1, Fin 0, Fin 0] = Fin 1"
  by (simp add: cosine_fp_def np_norm_fp_def fl_sum_def binary64_round round64_one round64_zero)

lemma binary64_zero_angle: "np_degrees_fp binary64 (np_arccos_fp binary64 (Fin 1)) = Fin 0"
  by (simp add: np_degrees_fp_def np_arccos_fp_def binary64_def round64_zero)

text \<open>Without the clipping, a quotient one unit in the last place above 1 would end
  in \<open>nan\<close>; with it, in the angle of the cosine 1.\<close>

lemma clip_guards_overshoot:
  "np_arccos_fp ar (Fin (1 + 1 / 2 ^ 52)) = NaN"
  "np_arccos_fp ar (np_clip (Fin (1 + 1 / 2 ^ 52)) (- 1) 1) = ar_arccos ar 1"
  by (simp_all add: np_arccos_fp_def np_clip_def)

lemma tiny_lines_sel:
  "uv_p1 tiny_lines = Some [0, 0, 0]" "uv_p2 tiny_lines = Some [tiny, 0, 0]"
  "lv_p1 tiny_lines = Some [0, 0, 0]" "lv_p2 tiny_lines = Some [0, tiny, 0]"
  by (simp_all add: tiny_lines_def with_lines_sel)

lemma exact_perpendicular_cosine:
  "cosine_fp exact (direction_fp exact [0, 0, 0] [1, 0, 0]) (direction_fp exact [0, 0, 0] [0, 1, 0]) =
     Fin 0"
proof -
  have "cosine_fp exact (map Fin (direction [0, 0, 0] [1, 0, 0])) (map Fin (direction [0, 0, 0] [0, 1, 0])) =
          np_divide (dot (direction [0, 0, 0] [1, 0, 0]) (direction [0, 0, 0] [0, 1, 0]))
            (np_norm (direction [0, 0, 0] [1, 0, 0]) * np_norm (direction [0, 0, 0] [0, 1, 0]))"
    by (rule exact_cosine)
  then show ?thesis
    by (simp add: exact_direction direction_def dot_def np_norm_def np_divide_def)
qed

lemma exact_right_angle: "np_degrees_fp exact (np_arccos_fp exact (Fin 0)) = Fin 90"
  by (simp add: exact_arccos exact_degrees np_arccos_def np_degrees_def)

text \<open>In the arithmetic of doubles two parallel unit lines make 0 degrees and the two
  tiny perpendicular lines have the quotient \<open>nan\<close>; without rounding two perpendicular
  unit lines make 90 degrees.\<close>

theorem angle_between_lines_fp_witness:
  "angles_in_range binary64 \<and>
   cosine_fp binary64 (direction_fp binary64 [0, 0, 0] [1, 0, 0])
     (direction_fp binary64 [0, 0, 0] [1, 0, 0]) = Fin 1 \<and>
   calc_angle_between_lines_fp binary64
     (with_lines (Some [0, 0, 0]) (Some [1, 0, 0]) (Some [0, 0, 0]) (Some [1, 0, 0])) =
     Inr (Fin 0) \<and>
   cosine_fp binary64 (direction_fp binary64 [0, 0, 0] [tiny, 0, 0])
     (direction_fp binary64 [0, 0, 0] [0, tiny, 0]) = NaN \<and>
   calc_angle_between_lines_fp binary64 tiny_lines = Inr NaN \<and>
   angles_in_range exact \<and>
   calc_angle_between_lines_fp exact
     (with_lines (Some [0, 0, 0]) (Some [1, 0, 0]) (Some [0, 0, 0]) (Some [0, 1, 0])) =
     Inr (Fin 90)"
  using angle_between_lines_fp
          [of "with_lines (Some [0, 0, 0]) (Some [1, 0, 0]) (Some [0, 0, 0]) (Some [1, 0, 0])"
              "[0, 0, 0]" "[1, 0, 0]" "[0, 0, 0]" "[1, 0, 0]" binary64]
        angle_between_lines_fp
          [of tiny_lines "[0, 0, 0]" "[tiny, 0, 0]" "[0, 0, 0]" "[0, tiny, 0]" binary64]
        angle_between_lines_fp
          [of "with_lines (Some [0, 0, 0]) (Some [1, 0, 0]) (Some [0, 0, 0]) (Some [0, 1, 0])"
              "[0, 0, 0]" "[1, 0, 0]" "[0, 0, 0]" "[0, 1, 0]" exact]
  by (simp add: with_lines_sel tiny_lines_sel binary64_angles_in_range exact_angles_in_range
        unit_direction unit_cosine binary64_zero_angle exact_perpendicular_cosine
        exact_right_angle tiny_directions tiny_cosine np_clip_def angle_of_nan)

text \<open>
  The lines from the origin to (tiny, 0, 0) and to (0, tiny, 0) are perpendicular and not
  degenerate. In the arithmetic of doubles the squares of their lengths round to 0, the
  quotient is 0 / 0, and the computation returns \<open>nan\<close>, no value from 0 to 180.
\<close>

theorem angle_between_lines_fp_counterexample:
  "tiny \<noteq> 0 \<and> calc_angle_between_lines_fp binary64 tiny_lines = Inr NaN"
proof
  show "tiny \<noteq> 0" using tiny_pos by simp
  have "calc_angle_between_lines_fp binary64 tiny_lines =
          Inr (np_degrees_fp binary64 (np_arccos_fp binary64
                 (np_clip (cosine_fp binary64 (direction_fp binary64 [0, 0, 0] [tiny, 0, 0])
                    (direction_fp binary64 [0, 0, 0] [0, tiny, 0])) (- 1) 1)))"
    by (rule calc_angle_fp_cosine) (simp_all add: tiny_lines_sel)
  then show "calc_angle_between_lines_fp binary64 tiny_lines = Inr NaN"
    by (simp add: tiny_directions tiny_cosine np_clip_nan angle_of_nan)
qed

subsection \<open>The intersection\<close>

lemma np_add_line_point:
  "length p1 = length p2 \<Longrightarrow>
     np_add (Some p1) (Some (scale s (direction p1 p2))) = Inr (line_point p1 p2 s)"
  by (simp add: np_add_def broadcast_def scale_def line_point_def direction_def)

lemma line_point_length: "length p1 = length p2 \<Longrightarrow> length (line_point p1 p2 s) = length p1"
  by (simp add: line_point_def direction_def)

lemma errFunc_residual:
  assumes "length p1 = length p2" "length q1 = length q2" "length p1 = length q1"
  shows "errFunc (Some p1) (Some p2) (Some q1) (Some q2) [s, t] =
           Inr (residual p1 p2 q1 q2 s t)"
proof -
  have "np_sub (Some (line_point p1 p2 s)) (Some (line_point q1 q2 t)) =
          Inr (residual p1 p2 q1 q2 s t)"
    using assms by (simp add: np_sub_def broadcast_def residual_def line_point_length)
  then show ?thesis
    using assms(1,2)
    by (simp add: errFunc_def np_sub_direction np_add_line_point bindE_def)
qed

lemma coord_at_line_point:
  assumes "length p1 = length p2" "i < length p1"
  shows "coord_at (Some p1) (Some p2) s i = Inr (line_point p1 p2 s ! i)"
  using assms by (simp add: coord_at_def item1_def bindE_def line_point_def direction_def)

lemma coord_at_outside:
  assumes "length p1 \<le> i"
  shows "coord_at (Some p1) p2 s i = Inl IndexError"
  using assms by (simp add: coord_at_def item1_def bindE_def)

lemma midpoint3:
  assumes "length a = 3" "length b = 3"
  shows "[(a ! 0 + b ! 0) / 2, (a ! 1 + b ! 1) / 2, (a ! 2 + b ! 2) / 2] = midpoint a b"
proof -
  obtain a0 a1 a2 where a: "a = [a0, a1, a2]"
    using assms(1) by (metis list3_eq)
  obtain b0 b1 b2 where b: "b = [b0, b1, b2]"
    using assms(2) by (metis list3_eq)
  show ?thesis by (simp add: a b midpoint_def)
qed

lemma calc_intersection_3d:
  assumes pts: "uv_p1 self = Some p1" "uv_p2 self = Some p2"
               "lv_p1 self = Some q1" "lv_p2 self = Some q2"
      and dim: "length p1 = 3" "length p2 = 3" "length q1 = 3" "length q2 = 3"
      and solve: "slv (errFunc (Some p1) (Some p2) (Some q1) (Some q2)) [1, 1] = Inr sols"
      and fit: "sols_x sols = [s, t]"
  shows "calc_intersection slv self =
           Inr (self\<lparr>intersection_point :=
                  Some (midpoint (line_point p1 p2 s) (line_point q1 q2 t))\<rparr>)"
proof -
  have ls: "least_squares slv (errFunc (Some p1) (Some p2) (Some q1) (Some q2)) [1, 1] = Inr sols"
    using dim solve by (simp add: least_squares_def errFunc_residual)
  have cp: "coord_at (Some p1) (Some p2) s i = Inr (line_point p1 p2 s ! i)"
    and cq: "coord_at (Some q1) (Some q2) t i = Inr (line_point q1 q2 t ! i)" if "i < 3" for i
    using dim that by (simp_all add: coord_at_line_point)
  have mid: "[(line_point p1 p2 s ! 0 + line_point q1 q2 t ! 0) / 2,
              (line_point p1 p2 s ! 1 + line_point q1 q2 t ! 1) / 2,
              (line_point p1 p2 s ! 2 + line_point q1 q2 t ! 2) / 2] =
             midpoint (line_point p1 p2 s) (line_point q1 q2 t)"
    using dim by (intro midpoint3) (simp_all add: line_point_length)
  have "calc_intersection slv self =
          Inr (self\<lparr>intersection_point :=
                 Some [(line_point p1 p2 s ! 0 + line_point q1 q2 t ! 0) / 2,
                       (line_point p1 p2 s ! 1 + line_point q1 q2 t ! 1) / 2,
                       (line_point p1 p2 s ! 2 + line_point q1 q2 t ! 2) / 2]\<rparr>)"
    using pts ls fit cp [of 0] cp [of 1] cp [of 2] cq [of 0] cq [of 1] cq [of 2]
    by (simp add: calc_intersection_def bindE_def Let_def)
  then show ?thesis by (simp only: mid)
qed

lemma calc_intersection_2d:
  assumes pts: "uv_p1 self = Some p1" and dim: "length p1 = 2"
  shows "\<exists>e. calc_intersection slv self = Inl e"
proof -
  have "coord_at (Some p1) (uv_p2 self) s 2 = Inl IndexError" for s
    using dim by (intro coord_at_outside) simp
  then show ?thesis
    using pts
    by (auto simp: calc_intersection_def bindE_def Let_def split: sum.splits list.splits)
qed


lemma sum_squares_nonneg: "0 \<le> sum_squares r"
  by (induction r) (simp_all add: sum_squares_def)

text \<open>
  Claim C3. For tangent lines in three dimensions, the function the estimator hands to
  the solver is the residual \<open>r(s, t) = (p1 + s (p2 - p1)) - (q1 + t (q2 - q1))\<close>, and the
  solver is started at \<open>s = t = 1\<close>. With the parameters \<open>s\<close> and \<open>t\<close> the solver
  answers, the estimator stores the componentwise midpoint of the point of the upper
  line at \<open>s\<close> and the point of the lower line at \<open>t\<close>. When the solver keeps its
  contract, \<open>s\<close> and \<open>t\<close> make the sum of the squares of the residual minimal.
\<close>

theorem intersection_least_squares_midpoint:
  assumes "uv_p1 self = Some p1" "uv_p2 self = Some p2"
      and "lv_p1 self = Some q1" "lv_p2 self = Some q2"
      and "length p1 = 3" "length p2 = 3" "length q1 = 3" "length q2 = 3"
      and "slv (errFunc (uv_p1 self) (uv_p2 self) (lv_p1 self) (lv_p2 self)) [1, 1] = Inr sols"
      and "sols_x sols = [s, t]"
  shows "(\<forall>s' t'. errFunc (uv_p1 self) (uv_p2 self) (lv_p1 self) (lv_p2 self) [s', t'] =
                    Inr (residual p1 p2 q1 q2 s' t')) \<and>
         calc_intersection slv self =
           Inr (self\<lparr>intersection_point :=
                  Some (midpoint (line_point p1 p2 s) (line_point q1 q2 t))\<rparr>) \<and>
         (minimises (errFunc (uv_p1 self) (uv_p2 self) (lv_p1 self) (lv_p2 self)) (sols_x sols) \<longrightarrow>
            (\<forall>s' t'. sum_squares (residual p1 p2 q1 q2 s t) \<le>
                      sum_squares (residual p1 p2 q1 q2 s' t')))"
proof (intro conjI allI impI)
  have res: "errFunc (Some p1) (Some p2) (Some q1) (Some q2) [a, b] =
               Inr (residual p1 p2 q1 q2 a b)" for a b
    using assms(5-8) by (simp add: errFunc_residual)
  show "errFunc (uv_p1 self) (uv_p2 self) (lv_p1 self) (lv_p2 self) [s', t'] =
          Inr (residual p1 p2 q1 q2 s' t')" for s' t'
    using res by (simp add: assms(1-4))
  show "calc_intersection slv self =
          Inr (self\<lparr>intersection_point :=
                 Some (midpoint (line_point p1 p2 s) (line_point q1 q2 t))\<rparr>)"
    using assms by (intro calc_intersection_3d) simp_all
  show "sum_squares (residual p1 p2 q1 q2 s t) \<le> sum_squares (residual p1 p2 q1 q2 s' t')"
    if "minimises (errFunc (uv_p1 self) (uv_p2 self) (lv_p1 self) (lv_p2 self)) (sols_x sols)"
    for s' t'
  proof -
    let ?f = "errFunc (Some p1) (Some p2) (Some q1) (Some q2)"
    from that have "\<exists>r. ?f [s, t] = Inr r \<and>
        (\<forall>est' r'. length est' = length [s, t] \<and> ?f est' = Inr r' \<longrightarrow>
           sum_squares r \<le> sum_squares r')"
      unfolding minimises_def assms(1-4) assms(10) .
    then obtain r where r: "?f [s, t] = Inr r"
      and least: "\<forall>est' r'. length est' = length [s, t] \<and> ?f est' = Inr r' \<longrightarrow>
                    sum_squares r \<le> sum_squares r'"
      by blast
    from r res have "r = residual p1 p2 q1 q2 s t" by simp
    moreover from least res [of s' t']
    have "sum_squares r \<le> sum_squares (residual p1 p2 q1 q2 s' t')"
      by (elim allE [of _ "[s', t']"] allE [of _ "residual p1 p2 q1 q2 s' t'"]) simp
    ultimately show ?thesis by simp
  qed
qed

text \<open>The lines of the specification's example, which cross in (1, 1, 0).\<close>

lemma crossing_residual:
  "residual [0, 0, 0] [2, 2, 0] [0, 2, 0] [2, 0, 0] (1 / 2) (1 / 2) = [0, 0, 0]"
  by (simp add: residual_def line_point_def direction_def)

text \<open>With the exact parameters, the estimate is the crossing point.\<close>

theorem intersection_least_squares_midpoint_witness:
  "calc_intersection (answering [1 / 2, 1 / 2] 0 1 True)
     (with_lines (Some [0, 0, 0]) (Some [2, 2, 0]) (Some [0, 2, 0]) (Some [2, 0, 0])) =
     Inr ((with_lines (Some [0, 0, 0]) (Some [2, 2, 0]) (Some [0, 2, 0]) (Some [2, 0, 0]))
            \<lparr>intersection_point := Some [1, 1, 0]\<rparr>) \<and>
   (\<forall>s' t'. sum_squares (residual [0, 0, 0] [2, 2, 0] [0, 2, 0] [2, 0, 0] (1 / 2) (1 / 2)) \<le>
             sum_squares (residual [0, 0, 0] [2, 2, 0] [0, 2, 0] [2, 0, 0] s' t'))"
proof -
  let ?w = "with_lines (Some [0, 0, 0]) (Some [2, 2, 0]) (Some [0, 2, 0]) (Some [2, 0, 0])"
  let ?f = "errFunc (uv_p1 ?w) (uv_p2 ?w) (lv_p1 ?w) (lv_p2 ?w)"
  let ?sols = "\<lparr>sols_x = [1 / 2, 1 / 2], sols_cost = 0, sols_status = 1, sols_success = True\<rparr>"
  have solve: "answering [1 / 2, 1 / 2] 0 1 True ?f [1, 1] = Inr ?sols"
    by (simp add: answering_def)
  have res: "?f [a, b] = Inr (residual [0, 0, 0] [2, 2, 0] [0, 2, 0] [2, 0, 0] a b)" for a b
    by (simp add: with_lines_sel errFunc_residual)
  have zero: "sum_squares [0, 0, 0] = 0" by (simp add: sum_squares_def)
  have "?f [1 / 2, 1 / 2] = Inr [0, 0, 0]"
    using res [of "1 / 2" "1 / 2"] by (simp only: crossing_residual)
  then have "minimises ?f (sols_x ?sols)"
    unfolding minimises_def
    by (intro exI [of _ "[0, 0, 0]"]) (simp add: zero sum_squares_nonneg)
  moreover have "midpoint (line_point [0, 0, 0] [2, 2, 0] (1 / 2)) (line_point [0, 2, 0] [2, 0, 0] (1 / 2)) =
                 [1, 1, 0]"
    by (simp add: midpoint_def line_point_def direction_def)
  ultimately show ?thesis
    using intersection_least_squares_midpoint
            [of ?w "[0, 0, 0]" "[2, 2, 0]" "[0, 2, 0]" "[2, 0, 0]"
                "answering [1 / 2, 1 / 2] 0 1 True" ?sols "1 / 2" "1 / 2", OF _ _ _ _ _ _ _ _ solve]
    by (simp add: with_lines_sel)
qed

subsection \<open>The intersection and the outcome of the solve\<close>

lemma errFunc_raises:
  "errFunc p1 p2 q1 q2 est = Inl e \<Longrightarrow> e = TypeError \<or> e = ValueError"
  by (auto simp: errFunc_def np_sub_def np_add_def broadcast_def bindE_def
           split: list.splits option.splits sum.splits if_splits)

lemma coord_at_raises: "coord_at p1 p2 s i = Inl e \<Longrightarrow> e = IndexError"
  by (auto simp: coord_at_def item1_def bindE_def split: option.splits sum.splits if_splits)

lemma calc_intersection_raises:
  assumes "calc_intersection slv self = Inl e"
  shows "e = TypeError \<or> e = ValueError \<or> e = IndexError \<or>
         slv (errFunc (uv_p1 self) (uv_p2 self) (lv_p1 self) (lv_p2 self)) [1, 1] = Inl e"
proof (cases "least_squares slv (errFunc (uv_p1 self) (uv_p2 self) (lv_p1 self) (lv_p2 self)) [1, 1]")
  case (Inl e')
  then have "e' = e" using assms by (simp add: calc_intersection_def bindE_def Let_def)
  with Inl show ?thesis
    by (auto simp: least_squares_def split: sum.splits dest: errFunc_raises)
next
  case (Inr sols)
  show ?thesis
  proof (cases "\<exists>s t. sols_x sols = [s, t]")
    case True
    then obtain s t where "sols_x sols = [s, t]" by blast
    with Inr assms have "e = IndexError"
      by (auto simp: calc_intersection_def bindE_def Let_def split: sum.splits
               dest: coord_at_raises)
    then show ?thesis by simp
  next
    case False
    with Inr assms have "e = ValueError"
      by (auto simp: calc_intersection_def bindE_def Let_def split: list.splits)
    then show ?thesis by simp
  qed
qed

text \<open>
  Claim C6, as the code has it. The estimator reads nothing but the parameters of the
  solver's answer: for tangent lines in three dimensions and an answer \<open>s\<close>, \<open>t\<close> it
  stores the midpoint of the point of the upper line at \<open>s\<close> and the point of the lower
  line at \<open>t\<close>, the same point whatever cost, status and success flag the solver
  reports. It has no check of its own: on any object, it raises
  \<open>GeometryException\<close> only if the call of the solver does.
\<close>

theorem intersection_ignores_solver_outcome:
  "(uv_p1 self = Some p1 \<and> uv_p2 self = Some p2 \<and> lv_p1 self = Some q1 \<and> lv_p2 self = Some q2 \<and>
    length p1 = 3 \<and> length p2 = 3 \<and> length q1 = 3 \<and> length q2 = 3 \<and>
    slv (errFunc (uv_p1 self) (uv_p2 self) (lv_p1 self) (lv_p2 self)) [1, 1] = Inr sols \<and>
    sols_x sols = [s, t] \<longrightarrow>
      calc_intersection slv self =
        Inr (self\<lparr>intersection_point :=
               Some (midpoint (line_point p1 p2 s) (line_point q1 q2 t))\<rparr>) \<and>
      (\<forall>c k ok. calc_intersection (answering [s, t] c k ok) self =
                  Inr (self\<lparr>intersection_point :=
                         Some (midpoint (line_point p1 p2 s) (line_point q1 q2 t))\<rparr>))) \<and>
   (slv (errFunc (uv_p1 self) (uv_p2 self) (lv_p1 self) (lv_p2 self)) [1, 1] \<noteq>
      Inl GeometryException \<longrightarrow>
      calc_intersection slv self \<noteq> Inl GeometryException)"
proof (intro conjI impI allI)
  assume a: "uv_p1 self = Some p1 \<and> uv_p2 self = Some p2 \<and> lv_p1 self = Some q1 \<and>
    lv_p2 self = Some q2 \<and> length p1 = 3 \<and> length p2 = 3 \<and> length q1 = 3 \<and> length q2 = 3 \<and>
    slv (errFunc (uv_p1 self) (uv_p2 self) (lv_p1 self) (lv_p2 self)) [1, 1] = Inr sols \<and>
    sols_x sols = [s, t]"
  then show "calc_intersection slv self =
          Inr (self\<lparr>intersection_point :=
                 Some (midpoint (line_point p1 p2 s) (line_point q1 q2 t))\<rparr>)"
    by (intro calc_intersection_3d [where sols = sols]) auto
  show "calc_intersection (answering [s, t] c k ok) self =
          Inr (self\<lparr>intersection_point :=
                 Some (midpoint (line_point p1 p2 s) (line_point q1 q2 t))\<rparr>)" for c k ok
    using a
    by (intro calc_intersection_3d [where sols = "\<lparr>sols_x = [s, t], sols_cost = c,
          sols_status = k, sols_success = ok\<rparr>"]) (simp_all add: answering_def)
next
  assume "slv (errFunc (uv_p1 self) (uv_p2 self) (lv_p1 self) (lv_p2 self)) [1, 1] \<noteq>
            Inl GeometryException"
  then show "calc_intersection slv self \<noteq> Inl GeometryException"
    using calc_intersection_raises [of slv self GeometryException] by auto
qed

text \<open>Two parallel lines one unit apart and a solver that gives up at its seed.\<close>

theorem intersection_ignores_solver_outcome_witness:
  "calc_intersection (answering [1, 1] (1 / 2) 0 False)
     (with_lines (Some [0, 0, 0]) (Some [1, 0, 0]) (Some [0, 1, 0]) (Some [1, 1, 0])) =
     Inr ((with_lines (Some [0, 0, 0]) (Some [1, 0, 0]) (Some [0, 1, 0]) (Some [1, 1, 0]))
            \<lparr>intersection_point := Some [1, 1 / 2, 0]\<rparr>) \<and>
   (\<forall>c k ok. calc_intersection (answering [1, 1] c k ok)
     (with_lines (Some [0, 0, 0]) (Some [1, 0, 0]) (Some [0, 1, 0]) (Some [1, 1, 0])) =
     Inr ((with_lines (Some [0, 0, 0]) (Some [1, 0, 0]) (Some [0, 1, 0]) (Some [1, 1, 0]))
            \<lparr>intersection_point := Some [1, 1 / 2, 0]\<rparr>)) \<and>
   calc_intersection (answering [1, 1] (1 / 2) 0 False)
     (with_lines (Some [0, 0, 0]) (Some [1, 0, 0]) (Some [0, 1, 0]) (Some [1, 1, 0])) \<noteq>
     Inl GeometryException"
proof -
  let ?w = "with_lines (Some [0, 0, 0]) (Some [1, 0, 0]) (Some [0, 1, 0]) (Some [1, 1, 0])"
  let ?sols = "\<lparr>sols_x = [1, 1], sols_cost = 1 / 2, sols_status = 0, sols_success = False\<rparr>"
  have mid: "midpoint (line_point [0, 0, 0] [1, 0, 0] 1) (line_point [0, 1, 0] [1, 1, 0] 1) =
               [1, 1 / 2, 0]"
    by (simp add: midpoint_def line_point_def direction_def)
  show ?thesis
    using intersection_ignores_solver_outcome
            [of ?w "[0, 0, 0]" "[1, 0, 0]" "[0, 1, 0]" "[1, 1, 0]"
                "answering [1, 1] (1 / 2) 0 False" ?sols 1 1]
    by (simp add: with_lines_sel answering_def mid)
qed

text \<open>
  The solver reports failure (status 0, no success) and the cost 1/2 of two parallel
  lines one unit apart; the estimator stores the point (1, 1/2, 0) and raises nothing.
\<close>

theorem intersection_ignores_solver_outcome_counterexample:
  "calc_intersection (answering [1, 1] (1 / 2) 0 False)
     (with_lines (Some [0, 0, 0]) (Some [1, 0, 0]) (Some [0, 1, 0]) (Some [1, 1, 0])) =
     Inr ((with_lines (Some [0, 0, 0]) (Some [1, 0, 0]) (Some [0, 1, 0]) (Some [1, 1, 0]))
            \<lparr>intersection_point := Some [1, 1 / 2, 0]\<rparr>)"
  by (simp add: calc_intersection_def least_squares_def errFunc_def answering_def
        with_lines_sel coord_at_def item1_def np_sub_def np_add_def broadcast_def scale_def
        bindE_def)

text \<open>
  Claim C7 fails on the code. The lines from (0, 0) to (2, 2) and from (0, 2) to (2, 0)
  cross in (1, 1). After the solve the estimator reads the third coordinate of points
  that have two, so it ends in an \<open>IndexError\<close> with the exact parameters, and in an
  exception with any solver.
\<close>

theorem intersection_2d_index_error:
  "calc_intersection (answering [1 / 2, 1 / 2] 0 1 True)
     (with_lines (Some [0, 0]) (Some [2, 2]) (Some [0, 2]) (Some [2, 0])) = Inl IndexError \<and>
   (\<forall>slv. \<exists>e. calc_intersection slv
     (with_lines (Some [0, 0]) (Some [2, 2]) (Some [0, 2]) (Some [2, 0])) = Inl e)"
proof
  show "calc_intersection (answering [1 / 2, 1 / 2] 0 1 True)
     (with_lines (Some [0, 0]) (Some [2, 2]) (Some [0, 2]) (Some [2, 0])) = Inl IndexError"
    by (simp add: calc_intersection_def least_squares_def errFunc_def answering_def
        with_lines_sel coord_at_def item1_def np_sub_def np_add_def broadcast_def scale_def
        bindE_def)
  show "\<forall>slv. \<exists>e. calc_intersection slv
     (with_lines (Some [0, 0]) (Some [2, 2]) (Some [0, 2]) (Some [2, 0])) = Inl e"
    by (intro allI calc_intersection_2d [of _ "[0, 0]"]) (simp_all add: with_lines_sel)
qed

subsection \<open>The angle of an object that was never executed\<close>

text \<open>One run of \<open>execute\<close> on the two cubes of \<open>labels3\<close>.\<close>

lemma fresh_sel:
  "label_map (fresh lm) = lm" "uv_label_index (fresh lm) = 1" "lv_label_index (fresh lm) = 2"
  "cobb_angle (fresh lm) = Fin 0"
  by (simp_all add: fresh_def init_def)

lemma flat_box3_length: "length (flat_box3 z) = 24"
  by (simp add: flat_box3_def)

lemma execute_uv_cubes:
  "calc_uv_bbox_vertices (fresh labels3) =
     Inr ((fresh labels3)\<lparr>uv_oriented_bbox_vertices := Some (cube 10)\<rparr>)"
  by (simp add: calc_uv_bbox_vertices_def fresh_sel labels3_def flat_box3_length
        reshape_flat_box3)

lemma execute_lv_cubes:
  "calc_lv_bbox_vertices ((fresh labels3)\<lparr>uv_oriented_bbox_vertices := Some (cube 10)\<rparr>) =
     Inr ((fresh labels3)\<lparr>uv_oriented_bbox_vertices := Some (cube 10),
                           lv_oriented_bbox_vertices := Some (cube 0)\<rparr>)"
  by (simp add: calc_lv_bbox_vertices_def fresh_sel labels3_def flat_box3_length
        reshape_flat_box3)

lemma execute_lines_cubes:
  "set_bbox_tan_line_points
     ((fresh labels3)\<lparr>uv_oriented_bbox_vertices := Some (cube 10),
                      lv_oriented_bbox_vertices := Some (cube 0)\<rparr>) =
     Inr (Some ([0, 0, 10], [1, 0, 10], [0, 1, 1], [1, 1, 1]), cubes_lines)"
  by (simp add: set_bbox_tan_line_points_def box3d_size box3d_row box3d_cube cube_rows
        bindE_def cubes_lines_def)

lemma spec_angle_parallel: "spec_angle [1, 0, 0] [1, 0, 0] = 0"
  by (simp add: spec_angle_def dot_def clip_def degrees_def)

lemma execute_angle_cubes: "calc_angle_between_lines cubes_lines = Inr (Fin 0)"
proof -
  have "calc_angle_between_lines cubes_lines =
          Inr (Fin (spec_angle (direction [0, 0, 10] [1, 0, 10]) (direction [0, 1, 1] [1, 1, 1])))"
    by (rule calc_angle_regular) (simp_all add: cubes_lines_def)
  then show ?thesis by (simp add: direction_def spec_angle_parallel)
qed

lemma execute_intersection_cubes:
  "\<exists>self'. calc_intersection (answering [1, 1] 0 1 True) (cubes_lines\<lparr>cobb_angle := Fin 0\<rparr>) =
             Inr self' \<and> cobb_angle self' = Fin 0"
proof -
  have "calc_intersection (answering [1, 1] 0 1 True) (cubes_lines\<lparr>cobb_angle := Fin 0\<rparr>) =
          Inr (cubes_lines\<lparr>cobb_angle := Fin 0,
                 intersection_point :=
                   Some (midpoint (line_point [0, 0, 10] [1, 0, 10] 1)
                                  (line_point [0, 1, 1] [1, 1, 1] 1))\<rparr>)"
    by (rule calc_intersection_3d
          [where sols = "\<lparr>sols_x = [1, 1], sols_cost = 0, sols_status = 1, sols_success = True\<rparr>"])
       (simp_all add: cubes_lines_def answering_def)
  then show ?thesis by simp
qed

lemma execute_cubes:
  "\<exists>self'. execute (answering [1, 1] 0 1 True) (fresh labels3) = Inr self' \<and>
           get_cobb_angle self' = Fin 0"
  using execute_intersection_cubes
  by (simp add: execute_def execute_uv_cubes execute_lv_cubes execute_lines_cubes
        execute_angle_cubes bindE_def get_cobb_angle_def)

text \<open>
  Claim C10. On a new object \<open>get_cobb_angle\<close> returns the number 0 of the
  constructor, with no exception; and there is an executed object (two cubes with
  parallel tangent lines) whose computed angle is the same value, so the value alone does
  not tell the two apart.
\<close>

theorem unexecuted_cobb_angle:
  "get_cobb_angle (init img lm uv_idx lv_idx) = Fin 0 \<and>
   (\<exists>slv lm' self'. execute slv (fresh lm') = Inr self' \<and>
      get_cobb_angle self' = get_cobb_angle (init img lm uv_idx lv_idx))"
proof
  show z: "get_cobb_angle (init img lm uv_idx lv_idx) = Fin 0"
    by (simp add: get_cobb_angle_def init_def)
  show "\<exists>slv lm' self'. execute slv (fresh lm') = Inr self' \<and>
      get_cobb_angle self' = get_cobb_angle (init img lm uv_idx lv_idx)"
    using execute_cubes unfolding z by blast
qed

text \<open>The new object on the label map of the two cubes.\<close>

theorem unexecuted_cobb_angle_witness:
  "get_cobb_angle (fresh labels3) = Fin 0"
  using unexecuted_cobb_angle [of "\<lparr>GetDimension = 3\<rparr>" labels3 1 2]
  by (simp add: fresh_def)

end
